theory Spec2Isabelle
  imports Complex_Main "HOL-Library.Log_Nat" "HOL-Library.Multiset"
begin

section \<open>Values, errors and tables\<close>

text \<open>
  The program of \<^verbatim>\<open>src/project.py\<close> works on pandas tables. A cell of a table is a
  text, a number or the missing marker (pandas' NaN / None). Numbers stand for the
  values of integer, boolean (0/1) and finite floating-point columns: each of these
  values is a rational number, and they compare as such. Where the program computes
  with floating-point numbers (the mean of a column, \<^verbatim>\<open>float\<close>), the result is rounded
  as float64 rounds it. Texts are lists of code points below 256.
\<close>

datatype cell = Str string | Num rat | NaN

fun is_text :: "cell \<Rightarrow> bool" where
  "is_text (Str s) = True"
| "is_text (Num q) = False"
| "is_text NaN = False"

text \<open>The Python exceptions that the modelled functions can raise.\<close>

datatype py_error = KeyError | AttributeError | TypeError | ValueError | NameError

text \<open>Sequencing of computations that may raise: the first exception ends the run.\<close>

definition ebind :: "py_error + 'a \<Rightarrow> ('a \<Rightarrow> py_error + 'b) \<Rightarrow> py_error + 'b" where
  "ebind m f = (case m of Inl e \<Rightarrow> Inl e | Inr x \<Rightarrow> f x)"

text \<open>
  A table (pandas DataFrame) is a list of row labels and an ordered list of named
  columns. \<open>index\<close> holds the row labels in row order, \<open>cols\<close> the columns in column
  order, each with one cell per row.
\<close>

record dataframe =
  index :: "nat list"
  cols :: "(string \<times> cell list) list"

definition columns :: "dataframe \<Rightarrow> string list" where
  "columns df = map fst (cols df)"

text \<open>\<^verbatim>\<open>df.shape\<close>: the number of rows and the number of columns.\<close>

definition shape :: "dataframe \<Rightarrow> nat \<times> nat" where
  "shape df = (length (index df), length (cols df))"

text \<open>
  The tables that the loader and the stages produce: column names are pairwise
  different, every column has one cell per row label, and row labels are unique.
\<close>

definition cols_fit :: "nat \<Rightarrow> (string \<times> cell list) list \<Rightarrow> bool" where
  "cols_fit n cs = list_all (\<lambda>c. length (snd c) = n) cs"

definition frame_ok :: "dataframe \<Rightarrow> bool" where
  "frame_ok df \<longleftrightarrow>
     distinct (columns df) \<and> distinct (index df) \<and> cols_fit (length (index df)) (cols df)"

text \<open>\<^verbatim>\<open>df[name]\<close>: the cells of a column; KeyError when no column has the name.\<close>

definition getitem :: "dataframe \<Rightarrow> string \<Rightarrow> py_error + cell list" where
  "getitem df name = (case map_of (cols df) name of None \<Rightarrow> Inl KeyError | Some vs \<Rightarrow> Inr vs)"

text \<open>
  \<^verbatim>\<open>df[name] = values\<close>: replaces the cells of the column in place when the table has
  it, and appends a new last column otherwise.
\<close>

definition setitem :: "dataframe \<Rightarrow> string \<Rightarrow> cell list \<Rightarrow> dataframe" where
  "setitem df name vs =
     (if name \<in> set (columns df)
      then df\<lparr>cols := map (\<lambda>c. if fst c = name then (name, vs) else c) (cols df)\<rparr>
      else df\<lparr>cols := cols df @ [(name, vs)]\<rparr>)"

text \<open>Selection by a Boolean mask: the entries at the positions marked True.\<close>

definition sel :: "bool list \<Rightarrow> 'a list \<Rightarrow> 'a list" where
  "sel keep xs = map snd (filter fst (zip keep xs))"

text \<open>\<^verbatim>\<open>df[mask]\<close>: a new table with the rows at the positions marked True.\<close>

definition take_rows :: "bool list \<Rightarrow> dataframe \<Rightarrow> dataframe" where
  "take_rows keep df =
     \<lparr>index = sel keep (index df), cols = map (\<lambda>c. (fst c, sel keep (snd c))) (cols df)\<rparr>"

text \<open>Removal of the columns with the given names, whichever of them the table has.\<close>

definition drop_cols :: "string list \<Rightarrow> dataframe \<Rightarrow> dataframe" where
  "drop_cols names df = df\<lparr>cols := filter (\<lambda>c. fst c \<notin> set names) (cols df)\<rparr>"

text \<open>
  \<^verbatim>\<open>df.drop(columns=names)\<close> with the default \<^verbatim>\<open>errors='raise'\<close>: a new table without
  the columns; KeyError when one of the names is not a column.
\<close>

definition drop_columns :: "dataframe \<Rightarrow> string list \<Rightarrow> py_error + dataframe" where
  "drop_columns df names =
     (if set names \<subseteq> set (columns df) then Inr (drop_cols names df) else Inl KeyError)"

text \<open>
  The rows of a table: each row is its label with the list of its (column, cell) pairs
  in column order.
\<close>

definition zip_col :: "string \<times> cell list \<Rightarrow> (string \<times> cell) list list \<Rightarrow> (string \<times> cell) list list" where
  "zip_col c rs = map (\<lambda>p. (fst c, fst p) # snd p) (zip (snd c) rs)"

definition rows_of :: "dataframe \<Rightarrow> (nat \<times> (string \<times> cell) list) list" where
  "rows_of df = zip (index df) (foldr zip_col (cols df) (replicate (length (index df)) []))"

section \<open>Python's text functions\<close>

text \<open>\<^verbatim>\<open>s.split(sep)\<close> for a one-character separator: the pieces between the separators.\<close>

fun split_on :: "char \<Rightarrow> string \<Rightarrow> string list" where
  "split_on sep [] = [[]]"
| "split_on sep (c # cs) =
     (if c = sep then [] # split_on sep cs
      else (c # hd (split_on sep cs)) # tl (split_on sep cs))"

text \<open>
  \<^verbatim>\<open>int(s)\<close> for a text \<open>s\<close>: white space around the literal is ignored, one sign may
  come first, and the digits may be grouped by single underscores. \<open>None\<close> stands for
  the ValueError that \<^verbatim>\<open>int\<close> raises on any other text. Integers are unbounded; the
  limit that recent interpreters put on the number of digits of a literal (4300 by
  default) is not part of the model.
\<close>

definition py_isspace :: "char \<Rightarrow> bool" where
  "py_isspace c \<longleftrightarrow> of_char c \<in> {9, 10, 11, 12, 13, 32, 133, 160 :: nat}"

definition is_digit :: "char \<Rightarrow> bool" where
  "is_digit c \<longleftrightarrow> 48 \<le> (of_char c :: nat) \<and> (of_char c :: nat) \<le> 57"

definition digit_val :: "char \<Rightarrow> int" where
  "digit_val c = int (of_char c) - 48"

fun py_digits :: "int \<Rightarrow> string \<Rightarrow> int option" where
  "py_digits acc [] = Some acc"
| "py_digits acc [c] = (if is_digit c then Some (10 * acc + digit_val c) else None)"
| "py_digits acc (c # d # ds) =
     (if is_digit c then py_digits (10 * acc + digit_val c) (d # ds)
      else if c = CHR ''_'' \<and> is_digit d then py_digits (10 * acc + digit_val d) ds
      else None)"

definition py_strip :: "string \<Rightarrow> string" where
  "py_strip s = rev (dropWhile py_isspace (rev (dropWhile py_isspace s)))"

definition py_unsigned :: "string \<Rightarrow> int option" where
  "py_unsigned s =
     (case s of [] \<Rightarrow> None
      | c # cs \<Rightarrow> if is_digit c then py_digits (digit_val c) cs else None)"

definition py_int :: "string \<Rightarrow> int option" where
  "py_int s =
     (case py_strip s of
        [] \<Rightarrow> None
      | c # cs \<Rightarrow>
          if c = CHR ''+'' then py_unsigned cs
          else if c = CHR ''-'' then map_option uminus (py_unsigned cs)
          else py_unsigned (c # cs))"

section \<open>Floating-point numbers\<close>

text \<open>
  A float64 has a significand of 53 bits. \<open>floor_log2 q\<close> is the exponent of a positive
  \<open>q\<close>, the integer \<open>e\<close> with \<open>2 powi e \<le> q < 2 powi (e + 1)\<close>, and \<open>round_float64 q\<close>
  is the float64 nearest to \<open>q\<close>, the one with the even significand when two are
  equally near: the result of every float64 operation whose exact value is \<open>q\<close>. Values
  beyond the largest float64 (which round to an infinity) and below the smallest
  normal one (which have fewer bits) are outside this development.
\<close>

definition floor_log2 :: "rat \<Rightarrow> int" where
  "floor_log2 q =
     (let d = bitlen (fst (quotient_of q)) - bitlen (snd (quotient_of q))
      in if 2 powi d \<le> q then d else d - 1)"

definition round_float64 :: "rat \<Rightarrow> rat" where
  "round_float64 q =
     (if q = 0 then 0
      else let ulp = 2 powi (floor_log2 \<bar>q\<bar> - 52);
               n = \<bar>q\<bar> / ulp;
               f = \<lfloor>n\<rfloor>;
               r = n - of_int f;
               m = (if r < 1 / 2 \<or> (r = 1 / 2 \<and> even f) then f else f + 1)
           in sgn q * of_int m * ulp)"

text \<open>
  The sum of a column is computed by the library, which adds float64 values in an
  order of its own choice (numpy adds fewer than eight values from left to right and
  longer columns in blocks). The sum is therefore a parameter of the functions that
  need it. \<open>seq_sum\<close> is the sum from left to right, every addition rounded.
\<close>

type_synonym float_sum = "rat list \<Rightarrow> rat"


text \<open>
  \<^verbatim>\<open>float(s)\<close> for a text \<open>s\<close>: white space around the literal is ignored, one sign may
  come first; then come digits with an optional point and an optional exponent, or
  the word \<^verbatim>\<open>nan\<close> in any case. The value of the literal is rounded to the nearest
  float64. \<open>None\<close> stands for the ValueError of any other text; the words for the
  infinities are among them here, since a cell holds no infinity.
\<close>

definition py_lower :: "char \<Rightarrow> char" where
  "py_lower c =
     (if 65 \<le> (of_char c :: nat) \<and> (of_char c :: nat) \<le> 90 then char_of (of_char c + 32 :: nat)
      else c)"

definition py_signed :: "string \<Rightarrow> int option" where
  "py_signed s =
     (case s of
        [] \<Rightarrow> None
      | c # cs \<Rightarrow>
          if c = CHR ''+'' then py_unsigned cs
          else if c = CHR ''-'' then map_option uminus (py_unsigned cs)
          else py_unsigned (c # cs))"

definition py_point_number :: "string \<Rightarrow> rat option" where
  "py_point_number s =
     (case split_on (CHR ''.'') s of
        [ipart] \<Rightarrow> map_option of_int (py_unsigned ipart)
      | [ipart, fpart] \<Rightarrow>
          (if ipart = [] \<and> fpart = [] then None
           else case (if ipart = [] then Some 0 else py_unsigned ipart,
                      if fpart = [] then Some 0 else py_unsigned fpart) of
                  (Some w, Some f) \<Rightarrow>
                    Some (of_int w + of_int f / 10 ^ length (filter is_digit fpart))
                | _ \<Rightarrow> None)
      | _ \<Rightarrow> None)"

definition py_float_number :: "string \<Rightarrow> rat option" where
  "py_float_number s =
     (let is_e = (\<lambda>c. c = CHR ''e'' \<or> c = CHR ''E'')
      in case dropWhile (\<lambda>c. \<not> is_e c) s of
           [] \<Rightarrow> py_point_number s
         | e # ex \<Rightarrow>
             (case (py_point_number (takeWhile (\<lambda>c. \<not> is_e c) s), py_signed ex) of
                (Some q, Some k) \<Rightarrow> Some (q * 10 powi k)
              | _ \<Rightarrow> None))"

definition py_float :: "string \<Rightarrow> cell option" where
  "py_float s =
     (let t = py_strip s;
          neg = (t \<noteq> [] \<and> hd t = CHR ''-'');
          u = (if t \<noteq> [] \<and> (hd t = CHR ''-'' \<or> hd t = CHR ''+'') then tl t else t)
      in if map py_lower u = ''nan'' then Some NaN
         else case py_float_number u of
                None \<Rightarrow> None
              | Some q \<Rightarrow> Some (Num (round_float64 (if neg then - q else q))))"

section \<open>Stage 1: the loader\<close>

text \<open>
  The file does not import pandas: \<^verbatim>\<open>pd\<close> is a name that the environment of the
  module has to supply. \<open>pandas\<close> is what \<^verbatim>\<open>pd.read_csv\<close> does on a path: it returns
  a table or raises. The failures are grouped by the \<^verbatim>\<open>except\<close> clause of
  \<^verbatim>\<open>load_data\<close> that their class matches; \<open>OtherException msg\<close> is any other
  exception, \<open>msg\<close> its text.
\<close>

datatype csv_failure = FileNotFoundError | EmptyDataError | ParserError | OtherException string

type_synonym pandas = "string \<Rightarrow> csv_failure + dataframe"

text \<open>
  The reader on a file system, as the pandas documentation and the comment above
  \<^verbatim>\<open>load_data\<close> describe it: FileNotFoundError for a path without a file,
  EmptyDataError for a file without data, ParserError for malformed rows.
\<close>

datatype file_state = Missing | EmptyFile | Malformed | Csv dataframe | Unreadable string

definition read_csv :: "(string \<Rightarrow> file_state) \<Rightarrow> pandas" where
  "read_csv fs path =
     (case fs path of
        Missing \<Rightarrow> Inl FileNotFoundError
      | EmptyFile \<Rightarrow> Inl EmptyDataError
      | Malformed \<Rightarrow> Inl ParserError
      | Csv df \<Rightarrow> Inr df
      | Unreadable msg \<Rightarrow> Inl (OtherException msg))"

text \<open>
  \<^verbatim>\<open>load_data(filename)\<close>: the lines printed, and the value returned (\<open>None\<close> is
  Python's \<^verbatim>\<open>None\<close>) or the exception that leaves the function. With \<^verbatim>\<open>pd\<close>
  unbound the NameError of the \<^verbatim>\<open>try\<close> body is met again when the second
  \<^verbatim>\<open>except\<close> clause evaluates \<^verbatim>\<open>pd.errors.EmptyDataError\<close>, and leaves the function.
\<close>

definition load_data :: "pandas option \<Rightarrow> string \<Rightarrow> string list \<times> (py_error + dataframe option)" where
  "load_data pd filename =
     (case pd of
        None \<Rightarrow> ([], Inl NameError)
      | Some reader \<Rightarrow>
          (case reader filename of
             Inr df \<Rightarrow> ([], Inr (Some df))
           | Inl FileNotFoundError \<Rightarrow> ([''Error: The file was not found.''], Inr None)
           | Inl EmptyDataError \<Rightarrow> ([''Error: The file is empty.''], Inr None)
           | Inl ParserError \<Rightarrow>
               ([''Error: Failed to parse the file. Please check its format.''], Inr None)
           | Inl (OtherException msg) \<Rightarrow>
               ([''Error: An unexpected error occurred - '' @ msg], Inr None)))"

section \<open>Stage 2: the filter\<close>

text \<open>
  \<^verbatim>\<open>extract_year(date_str)\<close>. A text is split at the hyphens; with exactly three pieces
  the first one goes through \<^verbatim>\<open>int\<close>, whose ValueError is caught and turned into
  \<^verbatim>\<open>None\<close>. A cell that is not a text has no \<^verbatim>\<open>split\<close>: the AttributeError is not
  caught.
\<close>

fun extract_year :: "cell \<Rightarrow> py_error + int option" where
  "extract_year (Str s) =
     (let parts = split_on (CHR ''-'') s
      in if length parts = 3 then Inr (py_int (parts ! 0)) else Inr None)"
| "extract_year (Num q) = Inl AttributeError"
| "extract_year NaN = Inl AttributeError"

text \<open>\<^verbatim>\<open>series.apply(f)\<close>: \<open>f\<close> on every cell in row order; the first exception ends it.\<close>

fun series_apply :: "(cell \<Rightarrow> py_error + 'a) \<Rightarrow> cell list \<Rightarrow> py_error + 'a list" where
  "series_apply f [] = Inr []"
| "series_apply f (c # cs) =
     ebind (f c) (\<lambda>y. ebind (series_apply f cs) (\<lambda>ys. Inr (y # ys)))"

text \<open>The cell that stores a result of \<open>extract_year\<close>: \<^verbatim>\<open>None\<close> is a missing value.\<close>

fun year_cell :: "int option \<Rightarrow> cell" where
  "year_cell (Some y) = Num (of_int y)"
| "year_cell None = NaN"

text \<open>
  \<^verbatim>\<open>series >= bound\<close> and \<^verbatim>\<open>series > bound\<close> against a number: False on a missing
  value, TypeError on a text.
\<close>

fun cell_ge :: "rat \<Rightarrow> cell \<Rightarrow> py_error + bool" where
  "cell_ge b (Num q) = Inr (q \<ge> b)"
| "cell_ge b NaN = Inr False"
| "cell_ge b (Str s) = Inl TypeError"

fun cell_gt :: "cell \<Rightarrow> cell \<Rightarrow> py_error + bool" where
  "cell_gt (Num b) (Num q) = Inr (q > b)"
| "cell_gt NaN (Num q) = Inr False"
| "cell_gt b NaN = Inr False"
| "cell_gt b (Str s) = Inl TypeError"
| "cell_gt (Str s) c = Inl TypeError"

text \<open>
  \<^verbatim>\<open>mask_data(df)\<close>. The result is the pair of the argument table as the call leaves it
  (the assignment \<^verbatim>\<open>df['year'] = ...\<close> writes into the caller's table) and the table
  that the call returns.
\<close>

definition mask_data_val :: "dataframe \<Rightarrow> py_error + dataframe \<times> dataframe" where
  "mask_data_val df =
     ebind (getitem df ''Close Approach Date'') (\<lambda>dates.
     ebind (series_apply extract_year dates) (\<lambda>years.
       let df1 = setitem df ''year'' (map year_cell years) in
       ebind (getitem df1 ''year'') (\<lambda>ycol.
       ebind (series_apply (cell_ge 2000) ycol) (\<lambda>keep.
       ebind (drop_columns (take_rows keep df1) [''year'']) (\<lambda>res.
         Inr (df1, res))))))"

text \<open>
  The same call on the object store. Objects are tables at addresses; \<open>used\<close> is the
  number of addresses handed out so far, so the next new object gets the address
  \<open>used\<close>. A function receives and returns Python values; a table is passed as the
  reference \<open>PFrame a\<close> to the object at address \<open>a\<close>.
\<close>

datatype pyval = PNone | PInt int | PText string | PList "pyval list" | PTuple "pyval list" | PFrame nat

record heap =
  frames :: "nat \<Rightarrow> dataframe"
  used :: nat

definition mask_data :: "heap \<Rightarrow> pyval \<Rightarrow> py_error + heap \<times> pyval" where
  "mask_data h v =
     (case v of
        PFrame a \<Rightarrow>
          ebind (mask_data_val (frames h a)) (\<lambda>r.
            Inr (h\<lparr>frames := (frames h)(a := fst r, used h := snd r), used := Suc (used h)\<rparr>,
                 PFrame (used h)))
      | _ \<Rightarrow> Inl TypeError)"

section \<open>Stage 3: the column pruner\<close>

text \<open>
  \<^verbatim>\<open>data_details(df)\<close>: \<^verbatim>\<open>df.drop(columns=[...], inplace=True, errors='ignore')\<close> changes
  the argument table itself and raises nothing for a missing column; the call returns
  the triple of the row count, the column count and the column names. The first
  component below is the argument table as the call leaves it.
\<close>

definition pruned_columns :: "string list" where
  "pruned_columns = [''Orbiting Body'', ''Neo Reference ID'', ''Equinox'']"

definition data_details_val :: "dataframe \<Rightarrow> dataframe \<times> (nat \<times> nat \<times> string list)" where
  "data_details_val df =
     (let df1 = drop_cols pruned_columns df;
          num_rows = fst (shape df1);
          num_cols = snd (shape df1);
          titles = columns df1
      in (df1, (num_rows, num_cols, titles)))"

definition data_details :: "heap \<Rightarrow> pyval \<Rightarrow> py_error + heap \<times> pyval" where
  "data_details h v =
     (case v of
        PFrame a \<Rightarrow>
          (let r = data_details_val (frames h a)
           in Inr (h\<lparr>frames := (frames h)(a := fst r)\<rparr>,
                   PTuple [PInt (int (fst (snd r))), PInt (int (fst (snd (snd r)))),
                           PList (map PText (snd (snd (snd r))))]))
      | _ \<Rightarrow> Inl AttributeError)"

section \<open>Stages 4 to 7: the aggregate queries\<close>

text \<open>
  \<^verbatim>\<open>series.idxmax()\<close> and \<^verbatim>\<open>series.idxmin()\<close>: the label of the first row that holds
  the largest (smallest) value. In a column of numbers the missing values are
  skipped. A column that holds only texts is compared as Python compares texts, code
  point by code point, a proper prefix coming first. A column that holds a text
  beside a number or a missing value cannot be compared (TypeError). A column without
  any value has no extremum and the query fails (ValueError here; the class of that
  exception depends on the pandas version).
\<close>

fun str_less :: "string \<Rightarrow> string \<Rightarrow> bool" where
  "str_less [] [] = False"
| "str_less [] (y # ys) = True"
| "str_less (x # xs) [] = False"
| "str_less (x # xs) (y # ys) =
     ((of_char x :: nat) < of_char y \<or> (x = y \<and> str_less xs ys))"

definition labelled_nums :: "nat list \<Rightarrow> cell list \<Rightarrow> (nat \<times> rat) list" where
  "labelled_nums idx vs =
     List.map_filter (\<lambda>p. case snd p of Num q \<Rightarrow> Some (fst p, q) | _ \<Rightarrow> None) (zip idx vs)"

definition labelled_texts :: "nat list \<Rightarrow> cell list \<Rightarrow> (nat \<times> string) list" where
  "labelled_texts idx vs =
     List.map_filter (\<lambda>p. case snd p of Str s \<Rightarrow> Some (fst p, s) | _ \<Rightarrow> None) (zip idx vs)"

fun scan_best :: "('v \<Rightarrow> 'v \<Rightarrow> bool) \<Rightarrow> nat \<times> 'v \<Rightarrow> (nat \<times> 'v) list \<Rightarrow> nat \<times> 'v" where
  "scan_best better b [] = b"
| "scan_best better b (x # xs) = scan_best better (if better (snd x) (snd b) then x else b) xs"

definition first_best :: "('v \<Rightarrow> 'v \<Rightarrow> bool) \<Rightarrow> (nat \<times> 'v) list \<Rightarrow> py_error + nat" where
  "first_best better ps =
     (case ps of [] \<Rightarrow> Inl ValueError | x # xs \<Rightarrow> Inr (fst (scan_best better x xs)))"

definition idx_best ::
  "(rat \<Rightarrow> rat \<Rightarrow> bool) \<Rightarrow> (string \<Rightarrow> string \<Rightarrow> bool) \<Rightarrow> nat list \<Rightarrow> cell list \<Rightarrow> py_error + nat" where
  "idx_best better text_better idx vs =
     (if list_ex is_text vs
      then (if list_all is_text vs then first_best text_better (labelled_texts idx vs)
            else Inl TypeError)
      else first_best better (labelled_nums idx vs))"

definition idxmax :: "nat list \<Rightarrow> cell list \<Rightarrow> py_error + nat" where
  "idxmax = idx_best (\<lambda>a b. a > b) (\<lambda>a b. str_less b a)"

definition idxmin :: "nat list \<Rightarrow> cell list \<Rightarrow> py_error + nat" where
  "idxmin = idx_best (\<lambda>a b. a < b) str_less"

text \<open>
  \<^verbatim>\<open>df.loc[label, name]\<close>: the cells of the column in the rows that carry the label.
  With one such row the expression is that cell; \<^verbatim>\<open>int\<close> and \<^verbatim>\<open>float\<close> accept
  nothing else (KeyError for no row, TypeError for several).
\<close>

definition loc :: "dataframe \<Rightarrow> nat \<Rightarrow> string \<Rightarrow> py_error + cell list" where
  "loc df l name =
     ebind (getitem df name) (\<lambda>vs. Inr (map snd (filter (\<lambda>p. fst p = l) (zip (index df) vs))))"

definition scalar :: "cell list \<Rightarrow> py_error + cell" where
  "scalar cs = (case cs of [] \<Rightarrow> Inl KeyError | [c] \<Rightarrow> Inr c | _ \<Rightarrow> Inl TypeError)"

text \<open>
  \<^verbatim>\<open>int(x)\<close> on a cell: a number is cut off towards zero, a text goes through the
  integer literal reader, a missing value is refused.
\<close>

fun int_of_cell :: "cell \<Rightarrow> py_error + int" where
  "int_of_cell (Num q) = Inr (if 0 \<le> q then \<lfloor>q\<rfloor> else \<lceil>q\<rceil>)"
| "int_of_cell (Str s) = (case py_int s of None \<Rightarrow> Inl ValueError | Some n \<Rightarrow> Inr n)"
| "int_of_cell NaN = Inl ValueError"

text \<open>
  \<^verbatim>\<open>float(x)\<close> on a cell: the float64 nearest to a number (the number itself when it
  is a float64), the missing value for a missing value, and a text goes through the
  reader of floating-point literals.
\<close>

fun float_of_cell :: "cell \<Rightarrow> py_error + cell" where
  "float_of_cell (Num q) = Inr (Num (round_float64 q))"
| "float_of_cell NaN = Inr NaN"
| "float_of_cell (Str s) = (case py_float s of None \<Rightarrow> Inl ValueError | Some c \<Rightarrow> Inr c)"

definition max_absolute_magnitude :: "dataframe \<Rightarrow> py_error + int \<times> cell" where
  "max_absolute_magnitude df =
     ebind (getitem df ''Absolute Magnitude'') (\<lambda>mags.
     ebind (idxmax (index df) mags) (\<lambda>max_index.
     ebind (loc df max_index ''Name'') (\<lambda>ns.
     ebind (scalar ns) (\<lambda>n.
     ebind (int_of_cell n) (\<lambda>nm.
     ebind (loc df max_index ''Absolute Magnitude'') (\<lambda>ms.
     ebind (scalar ms) (\<lambda>m.
     ebind (float_of_cell m) (\<lambda>mag. Inr (nm, mag)))))))))"

definition closest_to_earth :: "dataframe \<Rightarrow> py_error + int" where
  "closest_to_earth df =
     ebind (getitem df ''Miss Dist.(kilometers)'') (\<lambda>dists.
     ebind (idxmin (index df) dists) (\<lambda>min_index.
     ebind (loc df min_index ''Name'') (\<lambda>ns.
     ebind (scalar ns) (\<lambda>n. int_of_cell n))))"

text \<open>
  \<^verbatim>\<open>series.value_counts()\<close>: the rows with a missing value are left out; the other
  values are counted in the order in which they are first met, and the (value, count)
  pairs are then handed to the sort of pandas (\<^verbatim>\<open>sort_values\<close> with
  \<^verbatim>\<open>ascending=False\<close>). That sort is not part of the file, and the file does not
  choose its kind: it is the parameter \<open>srt\<close>. What pandas documents of it is
  \<open>falling_sort\<close>: the pairs come back rearranged, by falling count. The order of
  pairs with the same count is not documented (the default kind of sort is not
  stable).
\<close>

type_synonym sorter = "(cell \<times> nat) list \<Rightarrow> (cell \<times> nat) list"


fun bump :: "cell \<Rightarrow> (cell \<times> nat) list \<Rightarrow> (cell \<times> nat) list" where
  "bump k [] = [(k, 1)]"
| "bump k (p # ps) = (if fst p = k then (k, Suc (snd p)) # ps else p # bump k ps)"

definition count_pairs :: "cell list \<Rightarrow> (cell \<times> nat) list" where
  "count_pairs vs = foldl (\<lambda>acc v. bump v acc) [] (filter (\<lambda>v. v \<noteq> NaN) vs)"

definition value_counts :: "sorter \<Rightarrow> cell list \<Rightarrow> (cell \<times> nat) list" where
  "value_counts srt vs = srt (count_pairs vs)"

definition common_orbit :: "sorter \<Rightarrow> dataframe \<Rightarrow> py_error + (cell \<times> nat) list" where
  "common_orbit srt df = ebind (getitem df ''Orbit ID'') (\<lambda>ids. Inr (value_counts srt ids))"

text \<open>
  \<^verbatim>\<open>series.mean()\<close>: the float64 sum of the numbers of the column, as the library
  adds them, divided in float64 by how many there are, missing values left out; the
  missing value when there is no number; TypeError for a column with a text.
\<close>

definition nums_of :: "cell list \<Rightarrow> rat list" where
  "nums_of vs = List.map_filter (\<lambda>c. case c of Num q \<Rightarrow> Some q | _ \<Rightarrow> None) vs"

definition series_mean :: "float_sum \<Rightarrow> cell list \<Rightarrow> py_error + cell" where
  "series_mean fsum vs =
     (if list_ex is_text vs then Inl TypeError
      else if nums_of vs = [] then Inr NaN
      else Inr (Num (round_float64 (fsum (nums_of vs) / of_nat (length (nums_of vs))))))"

definition min_max_diameter :: "float_sum \<Rightarrow> dataframe \<Rightarrow> py_error + nat" where
  "min_max_diameter fsum df =
     ebind (getitem df ''Est Dia in KM(min)'') (\<lambda>dia.
     ebind (series_mean fsum dia) (\<lambda>mean_val.
     ebind (series_apply (cell_gt mean_val) dia) (\<lambda>keep.
       Inr (fst (shape (take_rows keep df))))))"

section \<open>Stage 8: the reporter\<close>

text \<open>
  \<^verbatim>\<open>run_analysis_and_print(df)\<close> prints the shape, the column names and the results of
  the four queries, in this order. The record holds what the lines show; an exception
  of a query leaves the function.
\<close>

record report =
  rep_shape :: "nat \<times> nat"
  rep_columns :: "string list"
  rep_max :: "int \<times> cell"
  rep_closest :: int
  rep_orbits :: "(cell \<times> nat) list"
  rep_above_mean :: nat

definition run_analysis_and_print :: "sorter \<Rightarrow> float_sum \<Rightarrow> dataframe \<Rightarrow> py_error + report" where
  "run_analysis_and_print srt fsum df =
     ebind (max_absolute_magnitude df) (\<lambda>mx.
     ebind (closest_to_earth df) (\<lambda>closest_name.
     ebind (common_orbit srt df) (\<lambda>orbits.
     ebind (min_max_diameter fsum df) (\<lambda>above_mean.
       Inr \<lparr>rep_shape = shape df, rep_columns = columns df, rep_max = mx,
            rep_closest = closest_name, rep_orbits = orbits,
            rep_above_mean = above_mean\<rparr>))))"

section \<open>Stage 13: the statements of the module\<close>

text \<open>
  \<^verbatim>\<open>df[[names]]\<close>: a new table with exactly the named columns, in the order of the
  names; KeyError when the table lacks one of them.
\<close>

definition getitem_list :: "dataframe \<Rightarrow> string list \<Rightarrow> py_error + dataframe" where
  "getitem_list df names =
     (case those (map (\<lambda>n. map_option (Pair n) (map_of (cols df) n)) names) of
        None \<Rightarrow> Inl KeyError
      | Some cs \<Rightarrow> Inr \<lparr>index = index df, cols = cs\<rparr>)"

definition selected_columns :: "string list" where
  "selected_columns =
     [''Name'', ''Close Approach Date'', ''Absolute Magnitude'',
      ''Miss Dist.(kilometers)'', ''Orbit ID'',
      ''Est Dia in KM(min)'', ''Est Dia in KM(max)'',
      ''Minimum Orbit Intersection'', ''Miles per hour'', ''Hazardous'',
      ''Orbiting Body'', ''Neo Reference ID'', ''Equinox'']"

text \<open>
  The environment of a run: the binding of \<^verbatim>\<open>pd\<close>, if any, the sort and the sum of
  the library, and what each of the four chart functions does with its table
  (\<open>None\<close>: it returns; \<open>Some e\<close>: it raises \<open>e\<close>). The charts themselves are outside
  this development.
\<close>

record env =
  pd :: "pandas option"
  sort_values :: sorter
  sum_values :: float_sum
  render :: "string \<Rightarrow> dataframe \<Rightarrow> py_error option"

text \<open>
  A call binds the positional arguments to the parameters before the body starts.
  \<^verbatim>\<open>load_data\<close> has the one required parameter \<^verbatim>\<open>filename\<close>: any other number of
  arguments is a TypeError raised by the call itself.
\<close>

definition bind_filename :: "string list \<Rightarrow> py_error + string" where
  "bind_filename args = (case args of [filename] \<Rightarrow> Inr filename | _ \<Rightarrow> Inl TypeError)"

text \<open>
  The trace of a run lists the functions whose bodies were entered, each with the
  table it received (\<open>None\<close> when it received no table).
\<close>

type_synonym trace = "(string \<times> dataframe option) list"

definition stage_calls :: "string list" where
  "stage_calls =
     [''run_analysis_and_print'', ''plt_hist_diameter_improved'', ''plt_hist_common_orbit'',
      ''plt_pie_hazard'', ''plt_linear_motion_magnitude'']"

definition exec_stage :: "env \<Rightarrow> string \<Rightarrow> dataframe \<Rightarrow> py_error option" where
  "exec_stage e f df =
     (if f = ''run_analysis_and_print''
      then (case run_analysis_and_print (sort_values e) (sum_values e) df of
              Inl err \<Rightarrow> Some err
            | Inr r \<Rightarrow> None)
      else render e f df)"

fun run_stages :: "env \<Rightarrow> dataframe \<Rightarrow> string list \<Rightarrow> trace \<times> py_error option" where
  "run_stages e df [] = ([], None)"
| "run_stages e df (f # fs) =
     (case exec_stage e f df of
        Some err \<Rightarrow> ([(f, Some df)], Some err)
      | None \<Rightarrow> (case run_stages e df fs of (tr, r) \<Rightarrow> ((f, Some df) # tr, r)))"

text \<open>
  Lines 372 to 388, from the value that line 371 bound to \<^verbatim>\<open>df\<close>: the filter, the
  projection onto the selected columns, the reporter and the four charts.
\<close>

definition after_load :: "env \<Rightarrow> dataframe option \<Rightarrow> trace \<times> py_error option" where
  "after_load e loaded =
     (case loaded of
        None \<Rightarrow> ([(''mask_data'', None)], Some TypeError)
      | Some df \<Rightarrow>
          (case mask_data_val df of
             Inl err \<Rightarrow> ([(''mask_data'', Some df)], Some err)
           | Inr r \<Rightarrow>
               (case getitem_list (snd r) selected_columns of
                  Inl err \<Rightarrow> ([(''mask_data'', Some df)], Some err)
                | Inr p \<Rightarrow>
                    (case run_stages e p stage_calls of
                       (tr, res) \<Rightarrow> ((''mask_data'', Some df) # tr, res)))))"

text \<open>
  The whole module after its function definitions: line 371 calls \<^verbatim>\<open>load_data()\<close>
  with no argument.
\<close>

definition run_all :: "env \<Rightarrow> trace \<times> py_error option" where
  "run_all e =
     (case bind_filename [] of
        Inl err \<Rightarrow> ([], Some err)
      | Inr filename \<Rightarrow>
          (case load_data (pd e) filename of
             (out, Inl err) \<Rightarrow> ([(''load_data'', None)], Some err)
           | (out, Inr loaded) \<Rightarrow>
               (case after_load e loaded of (tr, res) \<Rightarrow> ((''load_data'', None) # tr, res))))"

text \<open>The names that the statements of the module bind before line 371.\<close>

definition module_names :: "string list" where
  "module_names =
     [''load_data'', ''extract_year'', ''mask_data'', ''data_details'',
      ''max_absolute_magnitude'', ''closest_to_earth'', ''common_orbit'',
      ''min_max_diameter'', ''run_analysis_and_print'', ''plt_hist_diameter_improved'',
      ''plt_hist_common_orbit'', ''plt_pie_hazard'', ''plt_linear_motion_magnitude'']"

text \<open>
  The binding of \<^verbatim>\<open>pd\<close> in the module as it stands: the file has no \<^verbatim>\<open>import\<close> and
  no other statement that binds the name.
\<close>

definition module_pd :: "pandas option" where
  "module_pd = None"

section \<open>The properties of the specification\<close>

text \<open>
  The filter's condition in the words of the specification: the date splits at the
  hyphens into exactly three parts, and the first part is an integer that is at least
  2000.
\<close>

definition spec_retained :: "string \<Rightarrow> bool" where
  "spec_retained s =
     (let parts = split_on (CHR ''-'') s
      in length parts = 3 \<and> (case py_int (hd parts) of Some y \<Rightarrow> 2000 \<le> y | None \<Rightarrow> False))"

fun retained_cell :: "cell \<Rightarrow> bool" where
  "retained_cell (Str s) = spec_retained s"
| "retained_cell (Num q) = False"
| "retained_cell NaN = False"

definition retained_row :: "nat \<times> (string \<times> cell) list \<Rightarrow> bool" where
  "retained_row r =
     (case map_of (snd r) ''Close Approach Date'' of Some c \<Rightarrow> retained_cell c | None \<Rightarrow> False)"

text \<open>The year that \<open>extract_year\<close> returns, when it returns.\<close>

definition year_of :: "cell \<Rightarrow> int option" where
  "year_of c = (case extract_year c of Inl e \<Rightarrow> None | Inr y \<Rightarrow> y)"

text \<open>The table that \<^verbatim>\<open>mask_data(df)\<close> returns.\<close>

definition filtered :: "dataframe \<Rightarrow> py_error + dataframe" where
  "filtered df = (case mask_data_val df of Inl e \<Rightarrow> Inl e | Inr r \<Rightarrow> Inr (snd r))"

text \<open>
  On the object store: the table at the address \<open>a\<close> after the call \<open>f(PFrame a)\<close>,
  and the value that a call returns.
\<close>

definition arg_after :: "(heap \<Rightarrow> pyval \<Rightarrow> py_error + heap \<times> pyval) \<Rightarrow> heap \<Rightarrow> nat \<Rightarrow> py_error + dataframe" where
  "arg_after f h a = (case f h (PFrame a) of Inl e \<Rightarrow> Inl e | Inr r \<Rightarrow> Inr (frames (fst r) a))"

definition returned :: "(heap \<Rightarrow> pyval \<Rightarrow> py_error + heap \<times> pyval) \<Rightarrow> heap \<Rightarrow> pyval \<Rightarrow> py_error + pyval" where
  "returned f h v = (case f h v of Inl e \<Rightarrow> Inl e | Inr r \<Rightarrow> Inr (snd r))"

text \<open>The three lines that \<open>load_data\<close> prints for the failures it names.\<close>

definition loader_messages :: "string list" where
  "loader_messages =
     [''Error: The file was not found.'', ''Error: The file is empty.'',
      ''Error: Failed to parse the file. Please check its format.'']"




section \<open>Tables for the examples\<close>

text \<open>Four dates: one before 2000, one from 2000, one without hyphens, one in two parts.\<close>

definition dates_table :: dataframe where
  "dates_table =
     \<lparr>index = [0, 1, 2, 3],
      cols = [(''Name'', [Num 11, Num 12, Num 13, Num 14]),
              (''Close Approach Date'',
               [Str ''1999-03-01'', Str ''2000-01-01'', Str ''soon'', Str ''2021-07''])]\<rparr>"

text \<open>A table whose second row has no date (an empty field of the file).\<close>

definition gap_table :: dataframe where
  "gap_table =
     \<lparr>index = [0, 1],
      cols = [(''Name'', [Num 31, Num 32]),
              (''Close Approach Date'', [Str ''2001-05-06'', NaN])]\<rparr>"

text \<open>A table with a column \<open>year\<close> of its own, and one without.\<close>

definition year_table :: dataframe where
  "year_table =
     \<lparr>index = [0],
      cols = [(''Close Approach Date'', [Str ''2001-05-06'']), (''year'', [Num 5])]\<rparr>"

definition recent_table :: dataframe where
  "recent_table =
     \<lparr>index = [0, 1],
      cols = [(''Name'', [Num 21, Num 22]),
              (''Close Approach Date'', [Str ''2001-05-06'', Str ''2015-12-31''])]\<rparr>"

text \<open>A table with two of the three columns that the pruner removes.\<close>

definition pruner_table :: dataframe where
  "pruner_table =
     \<lparr>index = [0, 1],
      cols = [(''Name'', [Num 1, Num 2]),
              (''Equinox'', [Str ''J2000'', Str ''J2000'']),
              (''Orbit ID'', [Num 5, Num 7]),
              (''Orbiting Body'', [Str ''Earth'', Str ''Earth''])]\<rparr>"

text \<open>An object store whose only object, at address 0, is the given table.\<close>

definition one_table :: "dataframe \<Rightarrow> heap" where
  "one_table df = \<lparr>frames = (\<lambda>a. df), used = 1\<rparr>"



text \<open>
  Three rows with the diameter 0.7, that is, with the float64 nearest to 7/10, and a
  column of Orbit IDs with two IDs that occur once.
\<close>

definition point7 :: rat where
  "point7 = 3152519739159347 / 4503599627370496"



definition names_table :: dataframe where
  "names_table =
     \<lparr>index = [0, 1, 2],
      cols = [(''Name'', [Str ''A'', Str ''B'', Str ''C'']),
              (''Absolute Magnitude'', [Num 20, Num 25, Num 25]),
              (''Miss Dist.(kilometers)'', [Num 500, Num 100, Num 900])]\<rparr>"

definition numbered_table :: dataframe where
  "numbered_table =
     \<lparr>index = [0, 1, 2],
      cols = [(''Name'', [Num 3703080, Str ''3723955'', Num 2446862]),
              (''Absolute Magnitude'', [Num 20, Num 25, Num 25]),
              (''Miss Dist.(kilometers)'', [Num 500, Num 100, Num 900])]\<rparr>"

section \<open>Sequencing and selection\<close>

lemma ebind_Inr [simp]: "ebind (Inr x) f = f x"
  by (simp add: ebind_def)

lemma ebind_Inl [simp]: "ebind (Inl e) f = Inl e"
  by (simp add: ebind_def)

lemma series_apply_total:
  "(\<And>c. c \<in> set cs \<Longrightarrow> f c = Inr (g c)) \<Longrightarrow> series_apply f cs = Inr (map g cs)"
  by (induction cs) auto

lemma series_apply_map:
  "(\<And>c. c \<in> set cs \<Longrightarrow> f (h c) = Inr (g c)) \<Longrightarrow>
   series_apply f (map h cs) = Inr (map g cs)"
  by (induction cs) auto

lemma sel_Nil [simp]: "sel [] xs = []" "sel ks [] = []"
  by (simp_all add: sel_def)

lemma sel_Cons [simp]: "sel (k # ks) (x # xs) = (if k then x # sel ks xs else sel ks xs)"
  by (simp add: sel_def)

lemma sel_map_same: "sel (map P xs) xs = filter P xs"
  by (induction xs) auto

lemma sel_map: "sel ks (map f xs) = map f (sel ks xs)"
  by (induction ks xs rule: list_induct2') auto

lemma sel_zip: "sel ks (zip xs ys) = zip (sel ks xs) (sel ks ys)"
proof (induction ks arbitrary: xs ys)
  case Nil
  then show ?case by simp
next
  case (Cons k ks)
  then show ?case by (cases xs; cases ys) auto
qed

lemma length_sel: "length ks = length xs \<Longrightarrow> length (sel ks xs) = length (filter id ks)"
  by (induction ks xs rule: list_induct2) auto

lemma sel_replicate:
  "length ks = n \<Longrightarrow> sel ks (replicate n x) = replicate (length (filter id ks)) x"
  by (induction ks arbitrary: n) auto

lemma extract_year_text: "is_text c \<Longrightarrow> extract_year c = Inr (year_of c)"
  by (cases c) (simp_all add: year_of_def Let_def)

lemma retained_cell_year:
  "is_text c \<Longrightarrow> retained_cell c = (case year_of c of Some y \<Rightarrow> 2000 \<le> y | None \<Rightarrow> False)"
proof (cases c)
  case (Str s)
  have "hd ps = ps ! 0" if "length ps = 3" for ps :: "string list"
    using that by (cases ps) simp_all
  then show ?thesis
    using Str by (auto simp: year_of_def spec_retained_def Let_def split: option.splits)
qed simp_all

lemma cell_ge_year_cell:
  "cell_ge 2000 (year_cell y) = Inr (case y of Some v \<Rightarrow> 2000 \<le> v | None \<Rightarrow> False)"
  by (cases y) simp_all

lemma getitem_setitem: "getitem (setitem df n vs) n = Inr vs"
proof -
  have a: "map_of (map (\<lambda>c. if fst c = n then (n, vs) else c) cs) n = Some vs"
    if "n \<in> fst ` set cs" for cs :: "(string \<times> cell list) list"
    using that by (induction cs) auto
  have b: "map_of (cs @ [(n, vs)]) n = Some vs"
    if "n \<notin> fst ` set cs" for cs :: "(string \<times> cell list) list"
    using that by (induction cs) auto
  show ?thesis
    using a [of "cols df"] b [of "cols df"]
    by (simp add: getitem_def setitem_def columns_def)
qed

lemma drop_take_setitem:
  "drop_columns (take_rows ks (setitem df n vs)) [n] = Inr (take_rows ks (drop_cols [n] df))"
proof -
  have "n \<in> set (columns (setitem df n vs))"
    by (cases "n \<in> set (columns df)") (force simp: columns_def setitem_def)+
  then have "n \<in> set (columns (take_rows ks (setitem df n vs)))"
    by (simp add: columns_def take_rows_def o_def)
  moreover have "drop_cols [n] (take_rows ks (setitem df n vs)) = take_rows ks (drop_cols [n] df)"
    by (auto simp: drop_cols_def take_rows_def setitem_def filter_map o_def columns_def
        intro!: filter_cong)
  ultimately show ?thesis
    by (simp add: drop_columns_def)
qed

lemma mask_data_val_text:
  assumes "getitem df ''Close Approach Date'' = Inr dates" and "list_all is_text dates"
  shows "mask_data_val df =
           Inr (setitem df ''year'' (map (\<lambda>c. year_cell (year_of c)) dates),
                take_rows (map retained_cell dates) (drop_cols [''year''] df))"
proof -
  have istext: "\<And>c. c \<in> set dates \<Longrightarrow> is_text c"
    using assms(2) by (simp add: list_all_iff)
  have years: "series_apply extract_year dates = Inr (map year_of dates)"
    by (rule series_apply_total) (simp add: extract_year_text istext)
  have keep: "series_apply (cell_ge 2000) (map (\<lambda>c. year_cell (year_of c)) dates) =
      Inr (map retained_cell dates)"
    by (rule series_apply_map) (simp add: cell_ge_year_cell retained_cell_year istext)
  show ?thesis
    unfolding mask_data_val_def
    by (simp add: assms(1) years Let_def getitem_setitem keep drop_take_setitem o_def)
qed

lemma length_zip_col: "length (snd c) = length rs \<Longrightarrow> length (zip_col c rs) = length rs"
  by (simp add: zip_col_def)

lemma length_by_row:
  "cols_fit n cs \<Longrightarrow> length (foldr zip_col cs (replicate n [])) = n"
  by (induction cs) (simp_all add: cols_fit_def length_zip_col)

lemma sel_zip_col: "sel ks (zip_col c rs) = zip_col (fst c, sel ks (snd c)) (sel ks rs)"
  by (simp add: zip_col_def sel_map sel_zip)

lemma sel_by_row:
  "length ks = n \<Longrightarrow>
   sel ks (foldr zip_col cs (replicate n [])) =
   foldr zip_col (map (\<lambda>c. (fst c, sel ks (snd c))) cs) (replicate (length (filter id ks)) [])"
  by (induction cs) (simp_all add: sel_replicate sel_zip_col)

lemma rows_of_take_rows:
  "length ks = length (index df) \<Longrightarrow> rows_of (take_rows ks df) = sel ks (rows_of df)"
  by (simp add: rows_of_def take_rows_def sel_zip sel_by_row length_sel)

lemma lookup_by_row:
  "cols_fit n cs \<Longrightarrow> map_of cs c = Some vs \<Longrightarrow>
   map (\<lambda>r. map_of r c) (foldr zip_col cs (replicate n [])) = map Some vs"
proof (induction cs)
  case Nil
  then show ?case by simp
next
  case (Cons a cs)
  let ?R = "foldr zip_col cs (replicate n [])"
  have fit: "cols_fit n cs" and la: "length (snd a) = n"
    using Cons.prems(1) by (simp_all add: cols_fit_def)
  have lr: "length ?R = n"
    by (rule length_by_row [OF fit])
  show ?case
  proof (cases "fst a = c")
    case True
    then have "vs = snd a"
      using Cons.prems(2) by (cases a) simp
    moreover have "map (\<lambda>r. map_of r c) (zip_col a ?R) = map Some (map fst (zip (snd a) ?R))"
      using True by (simp add: zip_col_def o_def)
    ultimately show ?thesis
      using la lr by simp
  next
    case False
    then have "map_of cs c = Some vs"
      using Cons.prems(2) by (cases a) (simp split: if_splits)
    then have ih: "map (\<lambda>r. map_of r c) ?R = map Some vs"
      by (rule Cons.IH [OF fit])
    have "map (\<lambda>r. map_of r c) (zip_col a ?R) = map (\<lambda>r. map_of r c) (map snd (zip (snd a) ?R))"
      using False by (simp add: zip_col_def o_def)
    then show ?thesis
      using la lr ih by simp
  qed
qed

lemma rows_of_lookup:
  assumes "cols_fit (length (index df)) (cols df)" and "map_of (cols df) c = Some vs"
  shows "map (\<lambda>r. map_of (snd r) c) (rows_of df) = map Some vs"
proof -
  let ?R = "foldr zip_col (cols df) (replicate (length (index df)) [])"
  have "length ?R = length (index df)"
    by (rule length_by_row [OF assms(1)])
  then have "map snd (rows_of df) = ?R"
    by (simp add: rows_of_def)
  then have "map (\<lambda>r. map_of (snd r) c) (rows_of df) = map (\<lambda>r. map_of r c) ?R"
    by (metis (mono_tags, lifting) map_map o_def map_eq_conv)
  then show ?thesis
    by (simp add: lookup_by_row [OF assms])
qed


lemma frame_ok_drop_cols: "frame_ok df \<Longrightarrow> frame_ok (drop_cols ns df)"
  by (auto simp: frame_ok_def drop_cols_def columns_def cols_fit_def list_all_iff distinct_map_filter)

lemma getitem_drop_cols:
  "n \<notin> set ns \<Longrightarrow> getitem (drop_cols ns df) n = getitem df n"
proof -
  have "map_of (filter (\<lambda>c. fst c \<notin> set ns) cs) n = map_of cs n"
    if "n \<notin> set ns" for cs :: "(string \<times> cell list) list"
    using that by (induction cs) auto
  then show "n \<notin> set ns \<Longrightarrow> getitem (drop_cols ns df) n = getitem df n"
    by (simp add: getitem_def drop_cols_def)
qed

lemma columns_take_rows: "columns (take_rows ks df) = columns df"
  by (simp add: columns_def take_rows_def o_def)

lemma columns_drop_cols: "columns (drop_cols ns df) = filter (\<lambda>n. n \<notin> set ns) (columns df)"
  by (simp add: columns_def drop_cols_def filter_map o_def)

section \<open>The filter (claims C1, C10, C4)\<close>

lemma series_apply_extract_not_text:
  "\<not> list_all is_text cs \<Longrightarrow> series_apply extract_year cs = Inl AttributeError"
proof (induction cs)
  case Nil
  then show ?case by simp
next
  case (Cons c cs)
  then show ?case
    by (cases c) (auto simp: Let_def)
qed

text \<open>
  What \<open>mask_data\<close> does on any table: KeyError without the date column,
  AttributeError when a date cell is not a text, and the filtered table otherwise.
\<close>

lemma mask_data_val_cases:
  "mask_data_val df =
     (case getitem df ''Close Approach Date'' of
        Inl e \<Rightarrow> Inl KeyError
      | Inr dates \<Rightarrow>
          if list_all is_text dates
          then Inr (setitem df ''year'' (map (\<lambda>c. year_cell (year_of c)) dates),
                    take_rows (map retained_cell dates) (drop_cols [''year''] df))
          else Inl AttributeError)"
proof (cases "getitem df ''Close Approach Date''")
  case (Inl e)
  then have "e = KeyError"
    by (simp add: getitem_def split: option.splits)
  then show ?thesis
    using Inl by (simp add: mask_data_val_def)
next
  case (Inr dates)
  show ?thesis
  proof (cases "list_all is_text dates")
    case True
    then show ?thesis
      using Inr by (simp add: mask_data_val_text)
  next
    case False
    then show ?thesis
      using Inr by (simp add: mask_data_val_def series_apply_extract_not_text)
  qed
qed

text \<open>
  On a table whose Close Approach Date column holds texts, \<open>mask_data\<close> returns a
  table whose rows are exactly the rows of the input, in their order and without the
  cell of the column \<open>year\<close>, whose date splits at the hyphens into exactly three
  parts with an integer first part of at least 2000. Rows with another number of
  parts or with a first part that is not an integer are left out, and the returned
  table has no column \<open>year\<close>.
\<close>

lemma mask_data_retains_rows_from_2000:
  assumes "frame_ok df"
    and "getitem df ''Close Approach Date'' = Inr dates"
    and "list_all is_text dates"
  shows "\<exists>df1 res. mask_data_val df = Inr (df1, res) \<and>
           rows_of res = filter retained_row (rows_of (drop_cols [''year''] df)) \<and>
           columns res = removeAll ''year'' (columns df) \<and>
           ''year'' \<notin> set (columns res)"
proof -
  let ?D = "drop_cols [''year''] df"
  let ?ks = "map retained_cell dates"
  let ?res = "take_rows ?ks ?D"
  have run: "mask_data_val df =
      Inr (setitem df ''year'' (map (\<lambda>c. year_cell (year_of c)) dates), ?res)"
    by (rule mask_data_val_text [OF assms(2,3)])
  have okD: "frame_ok ?D"
    by (rule frame_ok_drop_cols [OF assms(1)])
  have "getitem ?D ''Close Approach Date'' = Inr dates"
    using assms(2) by (simp add: getitem_drop_cols)
  then have look: "map_of (cols ?D) ''Close Approach Date'' = Some dates"
    by (simp add: getitem_def split: option.splits)
  have fit: "cols_fit (length (index ?D)) (cols ?D)"
    using okD by (simp add: frame_ok_def)
  have cells: "map (\<lambda>r. map_of (snd r) ''Close Approach Date'') (rows_of ?D) = map Some dates"
    by (rule rows_of_lookup [OF fit look])
  have "map retained_row (rows_of ?D) =
      map (\<lambda>c. case c of Some d \<Rightarrow> retained_cell d | None \<Rightarrow> False)
        (map (\<lambda>r. map_of (snd r) ''Close Approach Date'') (rows_of ?D))"
    by (simp add: retained_row_def)
  then have ks: "map retained_row (rows_of ?D) = ?ks"
    by (simp add: cells)
  have "length dates = length (index ?D)"
    using fit look by (auto simp: cols_fit_def list_all_iff dest!: map_of_SomeD)
  then have "rows_of ?res = sel ?ks (rows_of ?D)"
    by (simp add: rows_of_take_rows)
  then have rows: "rows_of ?res = filter retained_row (rows_of ?D)"
    by (simp add: ks [symmetric] sel_map_same)
  have names: "columns ?res = removeAll ''year'' (columns df)"
    by (simp add: columns_take_rows columns_drop_cols removeAll_filter_not_eq neq_commute)
  show ?thesis
    using run rows names by simp
qed

lemma mask_data_on_dates_table:
  "frame_ok dates_table \<and>
   getitem dates_table ''Close Approach Date'' =
     Inr [Str ''1999-03-01'', Str ''2000-01-01'', Str ''soon'', Str ''2021-07''] \<and>
   list_all is_text [Str ''1999-03-01'', Str ''2000-01-01'', Str ''soon'', Str ''2021-07''] \<and>
   (\<exists>df1 res. mask_data_val dates_table = Inr (df1, res) \<and>
      rows_of res = [(1, [(''Name'', Num 12), (''Close Approach Date'', Str ''2000-01-01'')])] \<and>
      columns res = [''Name'', ''Close Approach Date''] \<and>
      ''year'' \<notin> set (columns res))"
proof -
  have h1: "frame_ok dates_table"
    by code_simp
  have h2: "getitem dates_table ''Close Approach Date'' =
      Inr [Str ''1999-03-01'', Str ''2000-01-01'', Str ''soon'', Str ''2021-07'']"
    by code_simp
  have h3: "list_all is_text [Str ''1999-03-01'', Str ''2000-01-01'', Str ''soon'', Str ''2021-07'']"
    by simp
  have rows: "filter retained_row (rows_of (drop_cols [''year''] dates_table)) =
      [(1, [(''Name'', Num 12), (''Close Approach Date'', Str ''2000-01-01'')])]"
    by code_simp
  have names: "removeAll ''year'' (columns dates_table) = [''Name'', ''Close Approach Date'']"
    by code_simp
  show ?thesis
    using mask_data_retains_rows_from_2000 [OF h1 h2 h3] h1 h2 h3
    unfolding rows names by simp
qed

text \<open>
  Claim C1. The code does not do what the claim says on a table with a date cell that
  is not a text, such as the missing value of an empty field: the row is not left
  out. The cell has no \<^verbatim>\<open>split\<close>, \<open>extract_year\<close> catches ValueError only, and the
  AttributeError ends \<open>mask_data\<close>, which returns no table.
\<close>

theorem mask_data_raises_on_missing_date:
  "frame_ok gap_table \<and>
   getitem gap_table ''Close Approach Date'' = Inr [Str ''2001-05-06'', NaN] \<and>
   extract_year NaN = Inl AttributeError \<and>
   mask_data_val gap_table = Inl AttributeError"
proof -
  have a: "frame_ok gap_table"
    by code_simp
  have b: "getitem gap_table ''Close Approach Date'' = Inr [Str ''2001-05-06'', NaN]"
    by code_simp
  have c: "mask_data_val gap_table = Inl AttributeError"
    by code_simp
  show ?thesis
    using a b c by simp
qed

lemma sel_all: "list_all id ks \<Longrightarrow> length xs \<le> length ks \<Longrightarrow> sel ks xs = xs"
proof (induction ks arbitrary: xs)
  case Nil
  then show ?case by simp
next
  case (Cons k ks)
  then show ?case by (cases xs) simp_all
qed

lemma length_sel_le: "length (sel ks xs) \<le> length (filter id ks)"
proof (induction ks arbitrary: xs)
  case Nil
  then show ?case by simp
next
  case (Cons k ks)
  show ?case
  proof (cases xs)
    case Nil
    then show ?thesis by simp
  next
    case (Cons y ys)
    then show ?thesis
      using Cons.IH [of ys] by simp
  qed
qed

lemma length_sel_bound: "length ks = length ds \<Longrightarrow> length (sel ks xs) \<le> length (sel ks ds)"
  using length_sel_le [of ks xs] by (simp add: length_sel)

lemma take_rows_all:
  assumes "list_all id ks" and "length (index df) \<le> length ks"
    and "list_all (\<lambda>c. length (snd c) \<le> length ks) (cols df)"
  shows "take_rows ks df = df"
proof -
  have "map (\<lambda>c. (fst c, sel ks (snd c))) (cols df) = cols df"
    using assms(1,3) by (simp add: list_all_iff sel_all map_idI)
  then show ?thesis
    using assms(1,2) by (simp add: take_rows_def sel_all)
qed

lemma drop_cols_absent: "set ns \<inter> set (columns df) = {} \<Longrightarrow> drop_cols ns df = df"
proof -
  assume "set ns \<inter> set (columns df) = {}"
  then have "filter (\<lambda>c. fst c \<notin> set ns) (cols df) = cols df"
    by (auto simp: columns_def filter_id_conv)
  then show ?thesis
    by (simp add: drop_cols_def)
qed

lemma retained_is_text: "retained_cell c \<Longrightarrow> is_text c"
  by (cases c) simp_all

lemma getitem_length:
  "frame_ok df \<Longrightarrow> getitem df n = Inr vs \<Longrightarrow> length vs = length (index df)"
  by (auto simp: frame_ok_def getitem_def cols_fit_def list_all_iff
      split: option.splits dest!: map_of_SomeD)

lemma filtered_fixed:
  assumes "frame_ok df" and "''year'' \<notin> set (columns df)"
    and "getitem df ''Close Approach Date'' = Inr dates" and "list_all retained_cell dates"
  shows "filtered df = Inr df"
proof -
  have tx: "list_all is_text dates"
    using assms(4) by (auto simp: list_all_iff retained_is_text)
  have all: "list_all id (map retained_cell dates)"
    using assms(4) by (simp add: list_all_iff)
  have len: "length dates = length (index df)"
    by (rule getitem_length [OF assms(1,3)])
  have fit: "list_all (\<lambda>c. length (snd c) \<le> length (map retained_cell dates)) (cols df)"
    using assms(1) len by (simp add: frame_ok_def cols_fit_def list_all_iff)
  have "take_rows (map retained_cell dates) (drop_cols [''year''] df) = df"
    using assms(2) len by (simp add: drop_cols_absent take_rows_all [OF all _ fit])
  then show ?thesis
    by (simp add: filtered_def mask_data_val_text [OF assms(3) tx])
qed

lemma series_apply_extract_text:
  "series_apply extract_year cs = Inr ys \<Longrightarrow> list_all is_text cs"
proof (induction cs arbitrary: ys)
  case Nil
  then show ?case by simp
next
  case (Cons c cs)
  then show ?case
    by (cases c; cases "series_apply extract_year cs") (auto simp: Let_def split: if_splits)
qed

lemma filtered_Inr:
  assumes "filtered df = Inr r"
  shows "\<exists>dates. getitem df ''Close Approach Date'' = Inr dates \<and> list_all is_text dates \<and>
           r = take_rows (map retained_cell dates) (drop_cols [''year''] df)"
proof -
  obtain dates where d: "getitem df ''Close Approach Date'' = Inr dates"
    using assms by (cases "getitem df ''Close Approach Date''")
      (auto simp: filtered_def mask_data_val_def)
  obtain ys where "series_apply extract_year dates = Inr ys"
    using assms d by (cases "series_apply extract_year dates")
      (auto simp: filtered_def mask_data_val_def)
  then have tx: "list_all is_text dates"
    by (rule series_apply_extract_text)
  show ?thesis
    using assms d tx by (auto simp: filtered_def mask_data_val_text [OF d tx])
qed

lemma getitem_take_rows:
  "getitem (take_rows ks df) n = (case getitem df n of Inl e \<Rightarrow> Inl e | Inr vs \<Rightarrow> Inr (sel ks vs))"
proof -
  have "map_of (map (\<lambda>c. (fst c, sel ks (snd c))) cs) n = map_option (sel ks) (map_of cs n)"
    for cs :: "(string \<times> cell list) list"
    by (induction cs) auto
  then show ?thesis
    by (simp add: getitem_def take_rows_def split: option.splits)
qed

lemma list_all_sel: "list_all P xs \<Longrightarrow> list_all P (sel ks xs)"
proof (induction ks arbitrary: xs)
  case Nil
  then show ?case by simp
next
  case (Cons k ks)
  then show ?case by (cases xs) simp_all
qed

lemma sel_retained: "list_all retained_cell (sel (map retained_cell ds) ds)"
  by (simp add: sel_map_same list_all_iff)

lemma filtered_twice: "ebind (filtered df) filtered = filtered df"
proof (cases "filtered df")
  case (Inl e)
  then show ?thesis by simp
next
  case (Inr r)
  then obtain dates where d: "getitem df ''Close Approach Date'' = Inr dates"
    and tx: "list_all is_text dates"
    and r: "r = take_rows (map retained_cell dates) (drop_cols [''year''] df)"
    using filtered_Inr by blast
  let ?ks = "map retained_cell dates"
  let ?ds = "sel ?ks dates"
  have d2: "getitem r ''Close Approach Date'' = Inr ?ds"
    by (simp add: r getitem_take_rows getitem_drop_cols d)
  have keep2: "list_all retained_cell ?ds"
    by (rule sel_retained)
  then have tx2: "list_all is_text ?ds"
    by (auto simp: list_all_iff retained_is_text)
  have all: "list_all id (map retained_cell ?ds)"
    using keep2 by (simp add: list_all_iff)
  have no_year: "drop_cols [''year''] r = r"
    by (rule drop_cols_absent) (simp add: r columns_take_rows columns_drop_cols)
  have len: "length ?ks = length dates"
    by simp
  have idx: "length (index r) \<le> length (map retained_cell ?ds)"
    by (simp add: r take_rows_def length_sel_bound [OF len])
  have cs: "list_all (\<lambda>c. length (snd c) \<le> length (map retained_cell ?ds)) (cols r)"
    by (simp add: r take_rows_def list_all_iff length_sel_bound [OF len])
  have "take_rows (map retained_cell ?ds) (drop_cols [''year''] r) = r"
    unfolding no_year by (rule take_rows_all [OF all idx cs])
  then have "filtered r = Inr r"
    by (simp add: filtered_def mask_data_val_text [OF d2 tx2])
  then show ?thesis
    by (simp add: Inr)
qed


text \<open>
  Claim C10, as amended. For every table without a column \<open>year\<close> all of whose rows
  have a date with a year of at least 2000, the table that \<open>mask_data\<close> returns is
  equal to the table it was given; and for every table, applying \<open>mask_data\<close> to the
  table that a first application returned gives that same table again (an exception
  of the first application being the result of both).
\<close>

theorem filter_fixes_tables_without_year_column:
  "(frame_ok df \<and> ''year'' \<notin> set (columns df) \<and>
    getitem df ''Close Approach Date'' = Inr dates \<and> list_all retained_cell dates
    \<longrightarrow> filtered df = Inr df) \<and>
   ebind (filtered df) filtered = filtered df"
  using filtered_fixed [of df dates] filtered_twice [of df] by blast

theorem filter_fixes_tables_without_year_column_witness:
  "frame_ok recent_table \<and> ''year'' \<notin> set (columns recent_table) \<and>
   getitem recent_table ''Close Approach Date'' = Inr [Str ''2001-05-06'', Str ''2015-12-31''] \<and>
   list_all retained_cell [Str ''2001-05-06'', Str ''2015-12-31''] \<and>
   filtered recent_table = Inr recent_table \<and>
   ebind (filtered recent_table) filtered = filtered recent_table"
proof -
  have h1: "frame_ok recent_table"
    by code_simp
  have h2: "''year'' \<notin> set (columns recent_table)"
    by code_simp
  have h3: "getitem recent_table ''Close Approach Date'' = Inr [Str ''2001-05-06'', Str ''2015-12-31'']"
    by code_simp
  have h4: "list_all retained_cell [Str ''2001-05-06'', Str ''2015-12-31'']"
    by code_simp
  show ?thesis
    using filter_fixes_tables_without_year_column
      [of recent_table "[Str ''2001-05-06'', Str ''2015-12-31'']"] h1 h2 h3 h4
    by blast
qed

text \<open>
  Claim C10 as written fails on a table that has a column \<open>year\<close> of its own: all
  its rows pass the filter, and the table that comes back has lost that column.
\<close>

theorem filter_drops_year_column_of_input:
  "frame_ok year_table \<and>
   getitem year_table ''Close Approach Date'' = Inr [Str ''2001-05-06''] \<and>
   list_all retained_cell [Str ''2001-05-06''] \<and>
   filtered year_table = Inr \<lparr>index = [0], cols = [(''Close Approach Date'', [Str ''2001-05-06''])]\<rparr> \<and>
   \<lparr>index = [0], cols = [(''Close Approach Date'', [Str ''2001-05-06''])]\<rparr> \<noteq> year_table"
proof -
  have h1: "frame_ok year_table"
    by code_simp
  have h3: "getitem year_table ''Close Approach Date'' = Inr [Str ''2001-05-06'']"
    by code_simp
  have h4: "list_all retained_cell [Str ''2001-05-06'']"
    by code_simp
  have h5: "filtered year_table =
      Inr \<lparr>index = [0], cols = [(''Close Approach Date'', [Str ''2001-05-06''])]\<rparr>"
    by code_simp
  have h6: "\<lparr>index = [0], cols = [(''Close Approach Date'', [Str ''2001-05-06''])]\<rparr> \<noteq> year_table"
    by (simp add: year_table_def)
  show ?thesis
    using h1 h3 h4 h5 h6 by blast
qed

lemma mask_data_val_arg:
  assumes "mask_data_val df = Inr r"
  shows "\<exists>ys. fst r = setitem df ''year'' ys"
proof -
  obtain dates where d: "getitem df ''Close Approach Date'' = Inr dates"
    using assms by (cases "getitem df ''Close Approach Date''") (auto simp: mask_data_val_def)
  obtain ys where y: "series_apply extract_year dates = Inr ys"
    using assms d by (cases "series_apply extract_year dates") (auto simp: mask_data_val_def)
  then have tx: "list_all is_text dates"
    by (rule series_apply_extract_text)
  show ?thesis
    using assms by (auto simp: mask_data_val_text [OF d tx])
qed

lemma columns_setitem: "n \<in> set (columns (setitem df n vs))"
  by (cases "n \<in> set (columns df)") (force simp: columns_def setitem_def)+

lemma drop_cols_setitem: "drop_cols [n] (setitem df n vs) = drop_cols [n] df"
proof -
  have "filter (\<lambda>c. fst c \<notin> set [n]) (map (\<lambda>c. if fst c = n then (n, vs) else c) cs) =
      filter (\<lambda>c. fst c \<notin> set [n]) cs" for cs :: "(string \<times> cell list) list"
    by (induction cs) auto
  then show ?thesis
    by (simp add: drop_cols_def setitem_def)
qed

lemma index_setitem: "index (setitem df n vs) = index df"
  by (simp add: setitem_def)

text \<open>
  Claim C4, as amended. \<open>mask_data\<close> writes a column \<open>year\<close> into the table object it
  was given (the other columns and the rows of that object stay as they were) and
  returns a reference to a new object; \<open>data_details\<close> removes the columns Orbiting
  Body, Neo Reference ID and Equinox from the table object it was given and creates
  no object. Neither call changes any other object.
\<close>

theorem stages_change_their_argument_in_place:
  assumes "a < used h"
  shows "(\<forall>h' v. mask_data h (PFrame a) = Inr (h', v) \<longrightarrow>
            v = PFrame (used h) \<and> used h' = Suc (used h) \<and>
            ''year'' \<in> set (columns (frames h' a)) \<and>
            drop_cols [''year''] (frames h' a) = drop_cols [''year''] (frames h a) \<and>
            index (frames h' a) = index (frames h a) \<and>
            (\<forall>b. b < used h \<and> b \<noteq> a \<longrightarrow> frames h' b = frames h b)) \<and>
         (\<exists>h' v. data_details h (PFrame a) = Inr (h', v) \<and>
            frames h' a = drop_cols pruned_columns (frames h a) \<and> used h' = used h \<and>
            (\<forall>b. b \<noteq> a \<longrightarrow> frames h' b = frames h b))"
proof -
  have first: "v = PFrame (used h) \<and> used h' = Suc (used h) \<and>
      ''year'' \<in> set (columns (frames h' a)) \<and>
      drop_cols [''year''] (frames h' a) = drop_cols [''year''] (frames h a) \<and>
      index (frames h' a) = index (frames h a) \<and>
      (\<forall>b. b < used h \<and> b \<noteq> a \<longrightarrow> frames h' b = frames h b)"
    if run: "mask_data h (PFrame a) = Inr (h', v)" for h' v
  proof -
    obtain r where r: "mask_data_val (frames h a) = Inr r"
      using run by (cases "mask_data_val (frames h a)") (auto simp: mask_data_def)
    then obtain ys where ys: "fst r = setitem (frames h a) ''year'' ys"
      using mask_data_val_arg by blast
    have h': "h' = h\<lparr>frames := (frames h)(a := fst r, used h := snd r), used := Suc (used h)\<rparr>"
      and v: "v = PFrame (used h)"
      using run r by (simp_all add: mask_data_def)
    have at: "frames h' a = fst r"
      using assms by (simp add: h')
    have others: "\<forall>b. b < used h \<and> b \<noteq> a \<longrightarrow> frames h' b = frames h b"
      by (simp add: h')
    have fresh: "used h' = Suc (used h)"
      by (simp add: h')
    show ?thesis
      using v others fresh by (simp add: at ys columns_setitem drop_cols_setitem index_setitem)
  qed
  have second: "\<exists>h' v. data_details h (PFrame a) = Inr (h', v) \<and>
      frames h' a = drop_cols pruned_columns (frames h a) \<and> used h' = used h \<and>
      (\<forall>b. b \<noteq> a \<longrightarrow> frames h' b = frames h b)"
    by (simp add: data_details_def data_details_val_def Let_def)
  show ?thesis
    using first second by blast
qed


theorem stages_change_their_argument_in_place_witness:
  "0 < used (one_table dates_table) \<and>
   (\<exists>h' v. mask_data (one_table dates_table) (PFrame 0) = Inr (h', v) \<and> v = PFrame 1 \<and>
      used h' = 2 \<and> ''year'' \<in> set (columns (frames h' 0)) \<and>
      drop_cols [''year''] (frames h' 0) = dates_table) \<and>
   (\<exists>h' v. data_details (one_table dates_table) (PFrame 0) = Inr (h', v) \<and>
      frames h' 0 = dates_table \<and> used h' = 1)"
proof -
  have h0: "0 < used (one_table dates_table)"
    by (simp add: one_table_def)
  have at: "frames (one_table dates_table) 0 = dates_table" "used (one_table dates_table) = 1"
    by (simp_all add: one_table_def)
  have same: "drop_cols [''year''] dates_table = dates_table"
    "drop_cols pruned_columns dates_table = dates_table"
    by (simp_all add: drop_cols_def dates_table_def pruned_columns_def)
  have "getitem dates_table ''Close Approach Date'' =
      Inr [Str ''1999-03-01'', Str ''2000-01-01'', Str ''soon'', Str ''2021-07'']"
    by code_simp
  then have "mask_data_val dates_table =
      Inr (setitem dates_table ''year''
             (map (\<lambda>c. year_cell (year_of c))
                [Str ''1999-03-01'', Str ''2000-01-01'', Str ''soon'', Str ''2021-07'']),
           take_rows
             (map retained_cell [Str ''1999-03-01'', Str ''2000-01-01'', Str ''soon'', Str ''2021-07''])
             (drop_cols [''year''] dates_table))"
    by (rule mask_data_val_text) simp
  then have "\<exists>h' v. mask_data (one_table dates_table) (PFrame 0) = Inr (h', v)"
    by (simp add: mask_data_def at)
  then obtain h' v where "mask_data (one_table dates_table) (PFrame 0) = Inr (h', v)"
    by blast
  then show ?thesis
    using stages_change_their_argument_in_place [OF h0] h0
    by (simp add: at same) blast
qed

text \<open>
  Claim C4 as written fails for both stages: after the call of \<open>mask_data\<close> the
  caller's table has a third column, and after the call of \<open>data_details\<close> the
  caller's table has lost two of its four columns.
\<close>

theorem stages_do_change_the_callers_table:
  "map_sum id columns (arg_after mask_data (one_table dates_table) 0) =
     Inr [''Name'', ''Close Approach Date'', ''year''] \<and>
   columns dates_table = [''Name'', ''Close Approach Date''] \<and>
   map_sum id columns (arg_after data_details (one_table pruner_table) 0) =
     Inr [''Name'', ''Orbit ID''] \<and>
   columns pruner_table = [''Name'', ''Equinox'', ''Orbit ID'', ''Orbiting Body'']"
proof -
  have a: "map_sum id columns (arg_after mask_data (one_table dates_table) 0) =
      Inr [''Name'', ''Close Approach Date'', ''year'']"
    by code_simp
  have b: "columns dates_table = [''Name'', ''Close Approach Date'']"
    by code_simp
  have c: "map_sum id columns (arg_after data_details (one_table pruner_table) 0) =
      Inr [''Name'', ''Orbit ID'']"
    by code_simp
  have d: "columns pruner_table = [''Name'', ''Equinox'', ''Orbit ID'', ''Orbiting Body'']"
    by code_simp
  show ?thesis
    using a b c d by blast
qed


section \<open>The column pruner (claim C6)\<close>

lemma length_filter_compl:
  "length (filter (\<lambda>x. \<not> P x) xs) = length xs - length (filter P xs)"
  using sum_length_filter_compl [of P xs] by simp

lemma count_present:
  assumes "distinct xs" and "distinct ps"
  shows "length (filter (\<lambda>x. x \<in> set ps) xs) = length (filter (\<lambda>p. p \<in> set xs) ps)"
proof -
  have "length (filter (\<lambda>x. x \<in> set ps) xs) = card (set ps \<inter> set xs)"
    using assms(1) by (simp add: distinct_length_filter Collect_mem_eq)
  moreover have "length (filter (\<lambda>p. p \<in> set xs) ps) = card (set xs \<inter> set ps)"
    using assms(2) by (simp add: distinct_length_filter Collect_mem_eq)
  ultimately show ?thesis
    by (simp add: Int_commute)
qed

text \<open>
  Claim C6, as amended. For every table, \<open>data_details\<close> removes the columns Orbiting
  Body, Neo Reference ID and Equinox from the table it was given, whichever of them
  are there, and raises nothing when some or all are missing. It returns the triple of
  the row count, the column count after the removal (the count before minus the number
  of removed columns, which for pairwise different column names is the number of the
  three names that were present) and the list of the remaining column names in their
  order. The pruned table is the argument object itself; it is not part of the value
  returned.
\<close>

theorem data_details_prunes_argument_and_returns_counts:
  "data_details h (PFrame a) =
     Inr (h\<lparr>frames := (frames h)(a := drop_cols pruned_columns (frames h a))\<rparr>,
          PTuple [PInt (int (length (index (frames h a)))),
                  PInt (int (length (columns (frames h a)) -
                             length (filter (\<lambda>n. n \<in> set pruned_columns) (columns (frames h a))))),
                  PList (map PText (filter (\<lambda>n. n \<notin> set pruned_columns) (columns (frames h a))))]) \<and>
   columns (drop_cols pruned_columns (frames h a)) =
     filter (\<lambda>n. n \<notin> set pruned_columns) (columns (frames h a)) \<and>
   index (drop_cols pruned_columns (frames h a)) = index (frames h a) \<and>
   (distinct (columns (frames h a)) \<longrightarrow>
      length (filter (\<lambda>n. n \<in> set pruned_columns) (columns (frames h a))) =
      length (filter (\<lambda>p. p \<in> set (columns (frames h a))) pruned_columns))"
proof -
  let ?df = "frames h a"
  have "length (filter (\<lambda>c. fst c \<notin> set pruned_columns) (cols ?df)) =
      length (cols ?df) - length (filter (\<lambda>c. fst c \<in> set pruned_columns) (cols ?df))"
    by (rule length_filter_compl)
  moreover have "length (filter (\<lambda>n. n \<in> set pruned_columns) (columns ?df)) =
      length (filter (\<lambda>c. fst c \<in> set pruned_columns) (cols ?df))"
    by (simp add: columns_def filter_map o_def)
  ultimately have n: "length (cols (drop_cols pruned_columns ?df)) =
      length (columns ?df) - length (filter (\<lambda>n. n \<in> set pruned_columns) (columns ?df))"
    by (simp add: drop_cols_def columns_def)
  have d: "distinct pruned_columns"
    by (simp add: pruned_columns_def)
  show ?thesis
    using n count_present [OF _ d, of "columns ?df"]
    by (simp add: data_details_def data_details_val_def Let_def shape_def columns_drop_cols)
       (simp add: drop_cols_def)
qed


theorem data_details_prunes_argument_and_returns_counts_witness:
  "distinct (columns pruner_table) \<and>
   (\<exists>h'. data_details (one_table pruner_table) (PFrame 0) =
      Inr (h', PTuple [PInt 2, PInt 2, PList [PText ''Name'', PText ''Orbit ID'']]) \<and>
      frames h' 0 =
        \<lparr>index = [0, 1], cols = [(''Name'', [Num 1, Num 2]), (''Orbit ID'', [Num 5, Num 7])]\<rparr>) \<and>
   length (filter (\<lambda>p. p \<in> set (columns pruner_table)) pruned_columns) = 2"
proof -
  have at: "frames (one_table pruner_table) 0 = pruner_table"
    by (simp add: one_table_def)
  have d: "distinct (columns pruner_table)"
    by code_simp
  have names: "filter (\<lambda>n. n \<notin> set pruned_columns) (columns pruner_table) = [''Name'', ''Orbit ID'']"
    by code_simp
  have gone: "length (filter (\<lambda>n. n \<in> set pruned_columns) (columns pruner_table)) = 2"
    by code_simp
  have rest: "drop_cols pruned_columns pruner_table =
      \<lparr>index = [0, 1], cols = [(''Name'', [Num 1, Num 2]), (''Orbit ID'', [Num 5, Num 7])]\<rparr>"
    by code_simp
  have more: "length (index pruner_table) = 2" "length (columns pruner_table) = 4"
    by code_simp+
  show ?thesis
    using data_details_prunes_argument_and_returns_counts [of "one_table pruner_table" 0] d
    by (simp add: at names gone rest more)
qed

text \<open>
  Claim C6 as written fails: the value that \<open>data_details\<close> returns is a triple of
  two integers and a list of names, without a table.
\<close>

theorem data_details_returns_no_table:
  "returned data_details (one_table pruner_table) (PFrame 0) =
     Inr (PTuple [PInt 2, PInt 2, PList [PText ''Name'', PText ''Orbit ID'']])"
  by code_simp

section \<open>The loader (claim C9)\<close>

text \<open>
  With \<^verbatim>\<open>pd\<close> bound to pandas, \<open>load_data\<close> raises nothing on any path: it returns
  the table when the read succeeds and \<^verbatim>\<open>None\<close> in every other case. A missing
  file, an empty file and a malformed file print three different lines, and any other
  failure prints the general line with the failure's text, which is none of the
  three.
\<close>

lemma load_data_with_pandas:
  "load_data (Some (read_csv fs)) path =
     (case fs path of
        Missing \<Rightarrow> ([loader_messages ! 0], Inr None)
      | EmptyFile \<Rightarrow> ([loader_messages ! 1], Inr None)
      | Malformed \<Rightarrow> ([loader_messages ! 2], Inr None)
      | Csv df \<Rightarrow> ([], Inr (Some df))
      | Unreadable msg \<Rightarrow> ([''Error: An unexpected error occurred - '' @ msg], Inr None)) \<and>
   snd (load_data (Some reader) path) =
     (case reader path of Inl failure \<Rightarrow> Inr None | Inr df \<Rightarrow> Inr (Some df)) \<and>
   distinct loader_messages \<and>
   ''Error: An unexpected error occurred - '' @ msg' \<notin> set loader_messages"
proof -
  have a: "load_data (Some (read_csv fs)) path =
     (case fs path of
        Missing \<Rightarrow> ([loader_messages ! 0], Inr None)
      | EmptyFile \<Rightarrow> ([loader_messages ! 1], Inr None)
      | Malformed \<Rightarrow> ([loader_messages ! 2], Inr None)
      | Csv df \<Rightarrow> ([], Inr (Some df))
      | Unreadable msg \<Rightarrow> ([''Error: An unexpected error occurred - '' @ msg], Inr None))"
    by (cases "fs path") (simp_all add: load_data_def read_csv_def loader_messages_def)
  have b: "snd (load_data (Some reader) path) =
      (case reader path of Inl failure \<Rightarrow> Inr None | Inr df \<Rightarrow> Inr (Some df))"
    by (simp add: load_data_def split: sum.splits csv_failure.splits)
  have c: "distinct loader_messages"
    by (simp add: loader_messages_def)
  have d: "''Error: An unexpected error occurred - '' @ msg' \<notin> set loader_messages"
    by (simp add: loader_messages_def)
  show ?thesis
    using a b c d by blast
qed

text \<open>
  Claim C9. The code does not do what the claim says: in the module as it stands
  nothing binds \<^verbatim>\<open>pd\<close>, so on every path, whatever the file is, the call of
  \<open>load_data\<close> ends in a NameError that leaves the function. Nothing is printed and
  no absent result is returned.
\<close>

theorem load_data_raises_without_pandas:
  "load_data module_pd ''nasa.csv'' = ([], Inl NameError) \<and>
   load_data module_pd path = ([], Inl NameError)"
  by (simp add: load_data_def module_pd_def)

section \<open>The statements of the module (claims C2, C3)\<close>

text \<open>
  Claim C2. Every run of the module ends with the TypeError of the call
  \<^verbatim>\<open>load_data()\<close> on line 371, which passes no argument for the required parameter:
  no function body has been entered by then, so nothing is loaded and neither the
  filter nor the reporter nor a chart function runs. The module binds none of the
  names \<^verbatim>\<open>pd\<close>, \<^verbatim>\<open>np\<close> and \<^verbatim>\<open>plt\<close>, and without a binding of \<^verbatim>\<open>pd\<close> a call of
  \<open>load_data\<close> with a path ends in a NameError.
\<close>

theorem run_all_fails_at_load_data_call:
  "run_all e = ([], Some TypeError) \<and>
   ''pd'' \<notin> set module_names \<and> ''np'' \<notin> set module_names \<and> ''plt'' \<notin> set module_names \<and>
   load_data None path = ([], Inl NameError)"
  by (simp add: run_all_def bind_filename_def module_names_def load_data_def)

lemma those_map_fst:
  "those (map (\<lambda>n. map_option (Pair n) (f n)) ns) = Some cs \<Longrightarrow> map fst cs = ns"
proof (induction ns arbitrary: cs)
  case Nil
  then show ?case by simp
next
  case (Cons n ns)
  then show ?case
    by (cases "f n"; cases "those (map (\<lambda>n. map_option (Pair n) (f n)) ns)") auto
qed

lemma columns_getitem_list: "getitem_list df ns = Inr t \<Longrightarrow> columns t = ns"
  by (auto simp: getitem_list_def columns_def split: option.splits dest: those_map_fst)

lemma run_stages_trace:
  "run_stages e df fs = (tr, res) \<Longrightarrow> c \<in> set tr \<Longrightarrow> fst c \<in> set fs \<and> snd c = Some df"
proof (induction fs arbitrary: tr res)
  case Nil
  then show ?case by simp
next
  case (Cons f fs)
  show ?case
  proof (cases "exec_stage e f df")
    case None
    obtain tr' res' where rest: "run_stages e df fs = (tr', res')"
      by (cases "run_stages e df fs")
    then have "tr = (f, Some df) # tr'"
      using Cons.prems(1) None by simp
    then show ?thesis
      using Cons.IH [OF rest] Cons.prems(2) by auto
  next
    case (Some err)
    then show ?thesis
      using Cons.prems by auto
  qed
qed

text \<open>
  The statements after the load, from any value that the load could have bound: they
  apply \<open>mask_data\<close> and then select thirteen named columns. No function that is
  entered is \<open>data_details\<close>, and the reporter and the chart functions receive a table
  with exactly the thirteen columns.
\<close>

lemma after_load_trace:
  assumes "after_load e loaded = (tr, res)"
  shows "\<forall>c \<in> set tr. fst c \<noteq> ''data_details'' \<and>
            (fst c \<in> set stage_calls \<longrightarrow>
               (\<exists>t. snd c = Some t \<and> columns t = selected_columns))"
proof -
  have names: "''data_details'' \<notin> set stage_calls" "''mask_data'' \<notin> set stage_calls"
    by (simp_all add: stage_calls_def)
  have "fst c \<noteq> ''data_details'' \<and>
      (fst c \<in> set stage_calls \<longrightarrow> (\<exists>t. snd c = Some t \<and> columns t = selected_columns))"
    if c: "c \<in> set tr" for c
  proof (cases loaded)
    case None
    then show ?thesis
      using assms c names by (auto simp: after_load_def)
  next
    case (Some df)
    show ?thesis
    proof (cases "mask_data_val df")
      case (Inl err)
      then show ?thesis
        using assms c names Some by (auto simp: after_load_def)
    next
      case (Inr r)
      show ?thesis
      proof (cases "getitem_list (snd r) selected_columns")
        case (Inl err)
        then show ?thesis
          using assms c names Some Inr by (auto simp: after_load_def)
      next
        case p: (Inr p)
        obtain tr' res' where rest: "run_stages e p stage_calls = (tr', res')"
          by (cases "run_stages e p stage_calls")
        then have tr: "tr = (''mask_data'', Some df) # tr'"
          using assms Some Inr p by (simp add: after_load_def)
        have cols: "columns p = selected_columns"
          by (rule columns_getitem_list [OF p])
        show ?thesis
          using c tr run_stages_trace [OF rest, of c] names cols by (cases c) auto
      qed
    qed
  qed
  then show ?thesis
    by blast
qed

text \<open>
  Claim C3. The code does not do what the claim says: no run applies the column
  pruner. Every run ends at the call on line 371 before any function body is entered,
  so no aggregator and no chart function receives a table. The statements that
  follow do not call \<open>data_details\<close> either, from whatever value the load could have
  bound: none of the functions they call is \<open>data_details\<close>, and the list of columns
  that lines 375 to 381 select names Orbiting Body, Neo Reference ID and Equinox.
\<close>

theorem run_never_applies_data_details:
  "fst (run_all e) = [] \<and>
   ''data_details'' \<notin> fst ` set (fst (after_load e loaded)) \<and>
   ''data_details'' \<notin> set stage_calls \<and>
   set pruned_columns \<subseteq> set selected_columns"
proof -
  have a: "fst (run_all e) = []"
    by (simp add: run_all_def bind_filename_def)
  obtain tr res where r: "after_load e loaded = (tr, res)"
    by (cases "after_load e loaded")
  have "\<forall>c \<in> set tr. fst c \<noteq> ''data_details''"
    using after_load_trace [OF r] by blast
  then have b: "''data_details'' \<notin> fst ` set (fst (after_load e loaded))"
    using r by auto
  have c: "''data_details'' \<notin> set stage_calls"
    by (simp add: stage_calls_def)
  have d: "set pruned_columns \<subseteq> set selected_columns"
    by (simp add: pruned_columns_def selected_columns_def)
  show ?thesis
    using a b c d by blast
qed

section \<open>The aggregate queries (claims C7, C8, C5)\<close>

text \<open>
  The exponent that the rounding uses is the right one: a positive \<open>q\<close> lies between
  the power of two with the exponent \<open>floor_log2 q\<close> and the next power of two.
\<close>

lemma bitlen_powi:
  assumes "0 < x"
  shows "(2 :: rat) powi (bitlen x - 1) \<le> of_int x \<and> of_int x < (2 :: rat) powi bitlen x"
proof -
  have b: "2 ^ nat (bitlen x - 1) \<le> x \<and> x < 2 ^ nat (bitlen x)"
    by (rule bitlen_bounds [OF assms])
  have pos: "1 \<le> bitlen x"
    using assms by (simp add: bitlen_alt_def)
  have "(of_int (2 ^ nat (bitlen x - 1)) :: rat) \<le> of_int x"
    using b by (simp only: of_int_le_iff)
  moreover have "(of_int x :: rat) < of_int (2 ^ nat (bitlen x))"
    using b by (simp only: of_int_less_iff)
  ultimately show ?thesis
    using pos by (simp add: power_int_def)
qed

lemma floor_log2_bounds:
  assumes "0 < q"
  shows "2 powi floor_log2 q \<le> q \<and> q < 2 powi (floor_log2 q + 1)"
proof -
  obtain a b where ab: "quotient_of q = (a, b)"
    by (cases "quotient_of q")
  have bpos: "0 < b"
    using ab by (rule quotient_of_denom_pos)
  have q: "q = of_int a / of_int b"
    using ab by (rule quotient_of_div)
  have apos: "0 < a"
    using assms bpos by (simp add: q zero_less_divide_iff)
  define la where "la = bitlen a"
  define lb where "lb = bitlen b"
  have A: "(2 :: rat) powi (la - 1) \<le> of_int a" "of_int a < (2 :: rat) powi la"
    using bitlen_powi [OF apos] by (simp_all add: la_def)
  have B: "(2 :: rat) powi (lb - 1) \<le> of_int b" "of_int b < (2 :: rat) powi lb"
    using bitlen_powi [OF bpos] by (simp_all add: lb_def)
  have bq: "(0 :: rat) < of_int b"
    using bpos by simp
  have "(of_int a :: rat) < 2 powi la"
    by (rule A(2))
  also have "(2 :: rat) powi la = 2 powi (la - lb + 1) * 2 powi (lb - 1)"
    by (simp add: power_int_add [symmetric])
  also have "\<dots> \<le> 2 powi (la - lb + 1) * of_int b"
    using B(1) by (simp add: mult_left_mono)
  finally have up: "q < 2 powi (la - lb + 1)"
    using bq by (simp add: q pos_divide_less_eq)
  have "(2 :: rat) powi (la - lb - 1) * of_int b < 2 powi (la - lb - 1) * 2 powi lb"
    using B(2) by (simp add: mult_strict_left_mono)
  also have "\<dots> = 2 powi (la - 1)"
    by (simp add: power_int_add [symmetric])
  also have "\<dots> \<le> of_int a"
    by (rule A(1))
  finally have lo: "2 powi (la - lb - 1) < q"
    using bq by (simp add: q pos_less_divide_eq)
  have d: "floor_log2 q = (if 2 powi (la - lb) \<le> q then la - lb else la - lb - 1)"
    by (simp add: floor_log2_def ab la_def lb_def)
  show ?thesis
  proof (cases "2 powi (la - lb) \<le> q")
    case True
    then show ?thesis
      using up by (simp add: d)
  next
    case False
    then show ?thesis
      using lo by (simp add: d)
  qed
qed


lemma no_text_Num: "\<not> list_ex is_text (map Num qs)"
  by (simp add: list_ex_iff)














lemma insort_key_lex:
  assumes "sorted_wrt (\<lambda>a b. f a < f b \<or> (f a = f b \<and> R a b)) ys"
    and "\<forall>y \<in> set ys. R x y"
  shows "sorted_wrt (\<lambda>a b. f a < f b \<or> (f a = f b \<and> R a b)) (insort_key f x ys)"
  using assms
proof (induction ys)
  case Nil
  then show ?case by simp
next
  case (Cons y ys)
  show ?case
  proof (cases "f x \<le> f y")
    case True
    have "f x < f z \<or> (f x = f z \<and> R x z)" if "z \<in> set (y # ys)" for z
    proof -
      have "f y \<le> f z"
        using Cons.prems(1) that by auto
      then show ?thesis
        using True Cons.prems(2) that by auto
    qed
    then show ?thesis
      using True Cons.prems(1) by simp
  next
    case False
    have "sorted_wrt (\<lambda>a b. f a < f b \<or> (f a = f b \<and> R a b)) (insort_key f x ys)"
      using Cons by simp
    then show ?thesis
      using False Cons.prems(1) by (auto simp: set_insort_key)
  qed
qed

lemma sort_key_lex:
  "sorted_wrt R xs \<Longrightarrow>
   sorted_wrt (\<lambda>a b. f a < f b \<or> (f a = f b \<and> R a b)) (sort_key f xs)"
proof (induction xs)
  case Nil
  then show ?case by simp
next
  case (Cons x xs)
  then show ?case
    by (simp add: insort_key_lex)
qed







text \<open>
  Claim C5. The code does not do what the claim says on names that are not numerals:
  both queries pass the Name cell through \<^verbatim>\<open>int\<close>. On the distances 500, 100, 900
  with the names A, B, C the row with the smallest distance is found, and converting
  its name B raises ValueError; \<open>max_absolute_magnitude\<close> fails on the same table in
  the same way. With names that \<^verbatim>\<open>int\<close> accepts, the queries return the integer of
  the name in the first row that holds the extremum.
\<close>

theorem queries_raise_on_text_names:
  "idxmin (index names_table) [Num 500, Num 100, Num 900] = Inr 1 \<and>
   ebind (loc names_table 1 ''Name'') scalar = Inr (Str ''B'') \<and>
   closest_to_earth names_table = Inl ValueError \<and>
   max_absolute_magnitude names_table = Inl ValueError \<and>
   closest_to_earth numbered_table = Inr 3723955 \<and>
   max_absolute_magnitude numbered_table = Inr (3723955, Num 25)"
proof -
  have a: "idxmin (index names_table) [Num 500, Num 100, Num 900] = Inr 1"
    by code_simp
  have b: "ebind (loc names_table 1 ''Name'') scalar = Inr (Str ''B'')"
    by code_simp
  have c: "closest_to_earth names_table = Inl ValueError"
    by code_simp
  have d: "max_absolute_magnitude names_table = Inl ValueError"
    by code_simp
  have e: "closest_to_earth numbered_table = Inr 3723955"
    by code_simp
  have f: "max_absolute_magnitude numbered_table = Inr (3723955, Num 25)"
    by code_simp
  show ?thesis
    using a b c d e f by blast
qed

lemma scan_best_first:
  assumes tr: "\<And>a b c. better a b \<Longrightarrow> better b c \<Longrightarrow> better a c"
    and ntr: "\<And>a b c. \<not> better a b \<Longrightarrow> \<not> better b c \<Longrightarrow> \<not> better a c"
  shows "\<exists>pre post. b # xs = pre @ scan_best better b xs # post \<and>
           (\<forall>x \<in> set pre. better (snd (scan_best better b xs)) (snd x)) \<and>
           (\<forall>x \<in> set post. \<not> better (snd x) (snd (scan_best better b xs)))"
proof (induction xs arbitrary: b)
  case Nil
  show ?case
    by (intro exI [of _ "[]"]) simp
next
  case (Cons x xs)
  show ?case
  proof (cases "better (snd x) (snd b)")
    case True
    define r where "r = scan_best better x xs"
    have run: "scan_best better b (x # xs) = r"
      using True by (simp add: r_def)
    obtain pre post where split: "x # xs = pre @ r # post"
      and before: "\<forall>y \<in> set pre. better (snd r) (snd y)"
      and after: "\<forall>y \<in> set post. \<not> better (snd y) (snd r)"
      using Cons.IH [of x] unfolding r_def by blast
    have "better (snd r) (snd b)"
    proof (cases pre)
      case Nil
      then have "hd (x # xs) = hd (r # post)"
        using split by simp
      then show ?thesis
        using True by simp
    next
      case (Cons p ps)
      then have "p = x"
        using split by simp
      then have "better (snd r) (snd x)"
        using before Cons by simp
      then show ?thesis
        using True tr by blast
    qed
    moreover have "b # x # xs = (b # pre) @ r # post"
      using split by simp
    ultimately show ?thesis
      unfolding run using before after by (intro exI [of _ "b # pre"] exI [of _ post]) simp
  next
    case False
    define r where "r = scan_best better b xs"
    have run: "scan_best better b (x # xs) = r"
      using False by (simp add: r_def)
    obtain pre post where split: "b # xs = pre @ r # post"
      and before: "\<forall>y \<in> set pre. better (snd r) (snd y)"
      and after: "\<forall>y \<in> set post. \<not> better (snd y) (snd r)"
      using Cons.IH [of b] unfolding r_def by blast
    show ?thesis
    proof (cases pre)
      case Nil
      then have "hd (b # xs) = hd (r # post)" "tl (b # xs) = tl (r # post)"
        using split by simp_all
      then have rb: "r = b" and px: "post = xs"
        by simp_all
      have "b # x # xs = [] @ r # (x # post)"
        by (simp add: rb px)
      moreover have "\<forall>y \<in> set (x # post). \<not> better (snd y) (snd r)"
        using after False by (simp add: rb)
      ultimately show ?thesis
        unfolding run by (intro exI [of _ "[]"] exI [of _ "x # post"]) simp
    next
      case (Cons p ps)
      then have p: "p = b" and rest: "xs = ps @ r # post"
        using split by simp_all
      have "better (snd r) (snd b)"
        using before Cons p by simp
      then have "better (snd r) (snd x)"
        using False ntr by blast
      moreover have "b # x # xs = (b # x # ps) @ r # post"
        using rest by simp
      ultimately show ?thesis
        unfolding run using before after Cons p
        by (intro exI [of _ "b # x # ps"] exI [of _ post]) simp
    qed
  qed
qed


lemma labelled_nums_Num: "length idx = length qs \<Longrightarrow> labelled_nums idx (map Num qs) = zip idx qs"
  by (induction idx qs rule: list_induct2) (simp_all add: labelled_nums_def List.map_filter_simps)

lemma idx_best_first:
  assumes tr: "\<And>a b c. better a b \<Longrightarrow> better b c \<Longrightarrow> better a c"
    and ntr: "\<And>a b c. \<not> better a b \<Longrightarrow> \<not> better b c \<Longrightarrow> \<not> better a c"
    and irr: "\<And>a. \<not> better a a"
    and len: "length idx = length qs" and ne: "qs \<noteq> []"
  shows "\<exists>i < length qs. idx_best better text_better idx (map Num qs) = Inr (idx ! i) \<and>
           (\<forall>j < i. better (qs ! i) (qs ! j)) \<and>
           (\<forall>j < length qs. \<not> better (qs ! j) (qs ! i))"
proof -
  obtain z zs where z: "zip idx qs = z # zs"
    using len ne by (cases idx; cases qs) auto
  define r where "r = scan_best better z zs"
  have "\<exists>pre post. z # zs = pre @ scan_best better z zs # post \<and>
      (\<forall>x \<in> set pre. better (snd (scan_best better z zs)) (snd x)) \<and>
      (\<forall>x \<in> set post. \<not> better (snd x) (snd (scan_best better z zs)))"
    by (rule scan_best_first) (erule tr, assumption, erule ntr, assumption)
  then obtain pre post where split: "zip idx qs = pre @ r # post"
    and before: "\<forall>y \<in> set pre. better (snd r) (snd y)"
    and after: "\<forall>y \<in> set post. \<not> better (snd y) (snd r)"
    unfolding r_def z by blast
  define i where "i = length pre"
  have "length (zip idx qs) = length (pre @ r # post)"
    by (simp only: split)
  then have total: "length qs = i + Suc (length post)"
    using len by (simp add: i_def)
  have il: "i < length qs"
    by (simp add: total)
  have at: "zip idx qs ! i = r"
    by (simp add: split i_def)
  then have r: "r = (idx ! i, qs ! i)"
    using il len by simp
  have lo: "better (qs ! i) (qs ! j)" if "j < i" for j
  proof -
    have "zip idx qs ! j \<in> set pre"
      using that by (simp add: split i_def nth_append)
    then have "better (snd r) (snd (zip idx qs ! j))"
      using before by blast
    then show ?thesis
      using that il len by (simp add: r)
  qed
  have hi: "\<not> better (qs ! j) (qs ! i)" if "i < j" "j < length qs" for j
  proof -
    have "j - i - 1 < length post"
      using that total by linarith
    moreover have "zip idx qs ! j = post ! (j - i - 1)"
      using that by (simp add: split i_def nth_append nth_Cons')
    ultimately have "zip idx qs ! j \<in> set post"
      by simp
    then have "\<not> better (snd (zip idx qs ! j)) (snd r)"
      using after by blast
    then show ?thesis
      using that len by (simp add: r)
  qed
  have all: "\<forall>j < length qs. \<not> better (qs ! j) (qs ! i)"
  proof (intro allI impI)
    fix j
    assume j: "j < length qs"
    consider "j < i" | "j = i" | "i < j"
      by linarith
    then show "\<not> better (qs ! j) (qs ! i)"
    proof cases
      case 1
      then have "better (qs ! i) (qs ! j)"
        by (rule lo)
      then show ?thesis
        using tr irr by blast
    next
      case 2
      then show ?thesis
        by (simp add: irr)
    next
      case 3
      then show ?thesis
        using hi j by blast
    qed
  qed
  have "idx_best better text_better idx (map Num qs) = Inr (idx ! i)"
    using r
    by (simp add: idx_best_def first_best_def no_text_Num labelled_nums_Num [OF len] z
        r_def [symmetric])
  then show ?thesis
    using il lo all by blast
qed


lemma filter_label:
  "distinct xs \<Longrightarrow> length ys = length xs \<Longrightarrow> i < length xs \<Longrightarrow>
   filter (\<lambda>p. fst p = xs ! i) (zip xs ys) = [(xs ! i, ys ! i)]"
proof (induction xs arbitrary: ys i)
  case Nil
  then show ?case by simp
next
  case (Cons x xs)
  obtain y ys' where ys: "ys = y # ys'"
    using Cons.prems(2) by (cases ys) auto
  have none: "filter (\<lambda>p. fst p = x) (zip xs ys') = []"
    using Cons.prems(1) by (auto simp: filter_empty_conv dest: set_zip_leftD)
  show ?case
  proof (cases i)
    case 0
    then show ?thesis
      using none by (simp add: ys)
  next
    case (Suc k)
    then have "xs ! k \<noteq> x"
      using Cons.prems(1,3) by auto
    then show ?thesis
      using Cons.IH [of ys' k] Cons.prems Suc by (simp add: ys)
  qed
qed

lemma loc_scalar:
  assumes "frame_ok df" and "getitem df n = Inr vs" and "i < length (index df)"
  shows "ebind (loc df (index df ! i) n) scalar = Inr (vs ! i)"
proof -
  have "length vs = length (index df)"
    by (rule getitem_length [OF assms(1,2)])
  moreover have "distinct (index df)"
    using assms(1) by (simp add: frame_ok_def)
  ultimately have "filter (\<lambda>p. fst p = index df ! i) (zip (index df) vs) = [(index df ! i, vs ! i)]"
    using assms(3) by (simp add: filter_label)
  then show ?thesis
    by (simp add: loc_def assms(2) scalar_def)
qed

text \<open>
  On a table whose Miss Dist.(kilometers) column holds numbers, \<open>closest_to_earth\<close> is
  \<^verbatim>\<open>int\<close> of the Name cell in the first row that holds the smallest distance; on a
  table whose Absolute Magnitude column holds numbers, \<open>max_absolute_magnitude\<close> is
  \<^verbatim>\<open>int\<close> of the Name cell in the first row that holds the largest magnitude,
  together with that magnitude as a float64. On a column of texts the queries take
  the first row with the text that is last (first) in Python's order of texts.
\<close>

lemma closest_to_earth_first_minimum:
  assumes "frame_ok df"
    and "getitem df ''Miss Dist.(kilometers)'' = Inr (map Num qs)"
    and "getitem df ''Name'' = Inr ns"
    and "qs \<noteq> []"
  shows "\<exists>i < length qs. (\<forall>j < i. qs ! i < qs ! j) \<and> (\<forall>j < length qs. qs ! i \<le> qs ! j) \<and>
           closest_to_earth df = int_of_cell (ns ! i)"
proof -
  have len: "length (index df) = length qs"
    using getitem_length [OF assms(1,2)] by simp
  obtain i where i: "i < length qs"
    and best: "idxmin (index df) (map Num qs) = Inr (index df ! i)"
    and lo: "\<forall>j < i. qs ! i < qs ! j"
    and all: "\<forall>j < length qs. \<not> qs ! j < qs ! i"
    using idx_best_first [where better = "\<lambda>a b. a < b" and idx = "index df" and qs = qs
        and text_better = str_less, OF _ _ _ len assms(4)]
    unfolding idxmin_def by fastforce
  have name: "ebind (loc df (index df ! i) ''Name'') scalar = Inr (ns ! i)"
    using i len by (simp add: loc_scalar [OF assms(1,3)])
  have "closest_to_earth df = int_of_cell (ns ! i)"
  proof (cases "loc df (index df ! i) ''Name''")
    case (Inl e)
    then show ?thesis
      using name by simp
  next
    case (Inr cs)
    then show ?thesis
      using name by (simp add: closest_to_earth_def assms(2) best)
  qed
  then show ?thesis
    using i lo all by (auto simp: not_less)
qed

lemma max_absolute_magnitude_first_maximum:
  assumes "frame_ok df"
    and "getitem df ''Absolute Magnitude'' = Inr (map Num qs)"
    and "getitem df ''Name'' = Inr ns"
    and "qs \<noteq> []"
  shows "\<exists>i < length qs. (\<forall>j < i. qs ! j < qs ! i) \<and> (\<forall>j < length qs. qs ! j \<le> qs ! i) \<and>
           max_absolute_magnitude df =
             ebind (int_of_cell (ns ! i)) (\<lambda>n. Inr (n, Num (round_float64 (qs ! i))))"
proof -
  have len: "length (index df) = length qs"
    using getitem_length [OF assms(1,2)] by simp
  obtain i where i: "i < length qs"
    and best: "idxmax (index df) (map Num qs) = Inr (index df ! i)"
    and lo: "\<forall>j < i. qs ! j < qs ! i"
    and all: "\<forall>j < length qs. \<not> qs ! i < qs ! j"
    using idx_best_first [where better = "\<lambda>a b. a > b" and idx = "index df" and qs = qs
        and text_better = "\<lambda>a b. str_less b a", OF _ _ _ len assms(4)]
    unfolding idxmax_def by fastforce
  have name: "ebind (loc df (index df ! i) ''Name'') scalar = Inr (ns ! i)"
    using i len by (simp add: loc_scalar [OF assms(1,3)])
  have mag: "ebind (loc df (index df ! i) ''Absolute Magnitude'') scalar = Inr (Num (qs ! i))"
    using i len by (simp add: loc_scalar [OF assms(1,2)])
  have "max_absolute_magnitude df =
      ebind (int_of_cell (ns ! i)) (\<lambda>n. Inr (n, Num (round_float64 (qs ! i))))"
  proof (cases "loc df (index df ! i) ''Name''")
    case (Inl e)
    then show ?thesis
      using name by simp
  next
    case ns: (Inr cs)
    show ?thesis
    proof (cases "loc df (index df ! i) ''Absolute Magnitude''")
      case (Inl e)
      then show ?thesis
        using mag by simp
    next
      case (Inr ms)
      then show ?thesis
        using name mag ns
        by (cases "int_of_cell (ns ! i)") (simp_all add: max_absolute_magnitude_def assms(2) best)
    qed
  qed
  then show ?thesis
    using i lo all by (auto simp: not_less)
qed

lemma queries_on_text_columns:
  "idxmax [0, 1, 2] [Str ''b'', Str ''c'', Str ''a''] = Inr 1 \<and>
   idxmin [0, 1, 2] [Str ''b'', Str ''c'', Str ''a''] = Inr 2 \<and>
   idxmax [0, 1, 2] [Str ''ab'', Str ''abc'', Str ''abc''] = Inr 1 \<and>
   idxmax [0, 1] [Str ''b'', Num 3] = Inl TypeError \<and>
   idxmin [0, 1] [Str ''b'', NaN] = Inl TypeError \<and>
   float_of_cell (Str '' -1_0.25e1 '') = Inr (Num (- 205 / 2)) \<and>
   float_of_cell (Str ''0.7'') = Inr (Num point7) \<and>
   float_of_cell (Str ''NaN'') = Inr NaN \<and>
   float_of_cell (Str ''1e'') = Inl ValueError"
  by code_simp

end
